theory Spec2Isabelle
  imports Main "HOL-Library.Char_ord" "HOL-Library.List_Lexorder" "HOL-Library.Sublist"
    "HOL-Library.AList" "HOL-Library.Multiset"
begin

section \<open>The error logger's data-access layer (app.py)\<close>

text \<open>
  The program keeps two SQLite tables, \<open>environments\<close> and \<open>errors\<close>, and reads and
  writes them through four functions. The tables are modelled as lists of rows in rowid
  order, the database as a record of both tables and their AUTOINCREMENT counters, and
  every function that touches the database takes it and returns it: a function that
  raises returns the exception together with the database as it stands then.

  Text is \<open>string\<close>: a character stands for the code point of the same number
  (U+0000 to U+00FF). \<open>CURRENT_TIMESTAMP\<close> is text of the form
  \<open>YYYY-MM-DD HH:MM:SS\<close>, whose order as text is the order of the instants it names;
  it is modelled as the number of that second, and the clock is an argument of every
  function that inserts a row.
\<close>

subsection \<open>Exceptions\<close>

datatype py_error =
    KeyError
  | IndexError
  | IntegrityError
  | JSONDecodeError
  | TypeError

type_synonym timestamp = int

subsection \<open>The json module\<close>

text \<open>
  What \<open>json.loads\<close> returns. A number keeps its text (Python turns it into an
  \<open>int\<close> or a \<open>float\<close>; \<open>NaN\<close>, \<open>Infinity\<close> and \<open>-Infinity\<close> are floats too); a
  string is a list of code points, since a \<open>\u\<close> escape can name any of them; an object
  keeps its pairs in the order read (the \<open>dict\<close> built from them keeps the last value
  of a repeated key). Two limits of the interpreter are left out: the depth of recursion
  (a text nested some thousand levels deep raises \<open>RecursionError\<close>) and the length of
  an integer (more than 4300 digits raise \<open>ValueError\<close>).
\<close>

datatype json =
    JNull
  | JBool bool
  | JNumber string
  | JString "nat list"
  | JArray "json list"
  | JObject "(nat list \<times> json) list"

abbreviation dquote :: char where
  "dquote \<equiv> CHR 0x22"

abbreviation backslash :: char where
  "backslash \<equiv> CHR 0x5C"

text \<open>
  \<open>json.dumps\<close> with \<open>ensure_ascii\<close>, its default: a character from space to tilde
  stands for itself, except the quote and the backslash; the others have a short escape or
  are written \<open>\uXXXX\<close>, in lower-case hexadecimal.
\<close>

definition hex_digit :: "nat \<Rightarrow> char" where
  "hex_digit d = char_of (if d < 10 then 48 + d else 87 + d)"

definition unicode_escape :: "nat \<Rightarrow> string" where
  "unicode_escape n =
     [backslash, CHR ''u'', hex_digit (n div 4096 mod 16), hex_digit (n div 256 mod 16),
      hex_digit (n div 16 mod 16), hex_digit (n mod 16)]"

definition escape_char :: "char \<Rightarrow> string" where
  "escape_char c =
     (let n = (of_char c :: nat) in
      if 32 \<le> n \<and> n \<le> 126 \<and> c \<noteq> backslash \<and> c \<noteq> dquote then [c]
      else if c = backslash then [backslash, backslash]
      else if c = dquote then [backslash, dquote]
      else if c = CHR 0x08 then [backslash, CHR ''b'']
      else if c = CHR 0x0C then [backslash, CHR ''f'']
      else if c = CHR 0x0A then [backslash, CHR ''n'']
      else if c = CHR 0x0D then [backslash, CHR ''r'']
      else if c = CHR 0x09 then [backslash, CHR ''t'']
      else unicode_escape n)"

definition encode_basestring_ascii :: "string \<Rightarrow> string" where
  "encode_basestring_ascii s = dquote # concat (map escape_char s) @ [dquote]"

fun str_join :: "string \<Rightarrow> string list \<Rightarrow> string" where
  "str_join sep [] = []"
| "str_join sep [x] = x"
| "str_join sep (x # y # ys) = x @ sep @ str_join sep (y # ys)"

text \<open>\<open>json.dumps\<close> of a list of strings: the items between brackets, separated by \<open>", "\<close>.\<close>

definition json_dumps_list :: "string list \<Rightarrow> string" where
  "json_dumps_list xs = ''['' @ str_join '', '' (map encode_basestring_ascii xs) @ '']''"

text \<open>
  \<open>json.dumps(d, sort_keys=True)\<close> of a dictionary from strings to strings, given as its
  items: the items are sorted by key, and written \<open>"key": "value"\<close> between braces.
\<close>

definition json_item :: "string \<times> string \<Rightarrow> string" where
  "json_item kv = encode_basestring_ascii (fst kv) @ '': '' @ encode_basestring_ascii (snd kv)"

definition json_dumps_sorted :: "(string \<times> string) list \<Rightarrow> string" where
  "json_dumps_sorted items = ''{'' @ str_join '', '' (map json_item (sort_key fst items)) @ ''}''"

text \<open>
  \<open>json.loads\<close>, after the scanner of the \<open>json\<close> module. \<open>scanstring\<close> reads a
  string from behind its opening quote, returning the code points and the text behind the
  closing quote; \<open>None\<close> is a \<open>JSONDecodeError\<close>. A control character is refused
  (\<open>strict\<close>), and a high surrogate escape followed by a low surrogate escape is one code
  point.
\<close>

definition hex_value :: "char \<Rightarrow> nat option" where
  "hex_value c =
     (let n = (of_char c :: nat) in
      if 48 \<le> n \<and> n \<le> 57 then Some (n - 48)
      else if 97 \<le> n \<and> n \<le> 102 then Some (n - 87)
      else if 65 \<le> n \<and> n \<le> 70 then Some (n - 55)
      else None)"

definition hex4 :: "string \<Rightarrow> nat option" where
  "hex4 s =
     (case s of
        a # b # c # d # _ \<Rightarrow>
          (case (hex_value a, hex_value b, hex_value c, hex_value d) of
             (Some x, Some y, Some z, Some w) \<Rightarrow> Some (((x * 16 + y) * 16 + z) * 16 + w)
           | _ \<Rightarrow> None)
      | _ \<Rightarrow> None)"

definition low_surrogate_escape :: "string \<Rightarrow> nat option" where
  "low_surrogate_escape s =
     (case s of
        b # u # rest \<Rightarrow>
          if b = backslash \<and> u = CHR ''u'' then
            (case hex4 rest of
               Some c2 \<Rightarrow> if 0xDC00 \<le> c2 \<and> c2 \<le> 0xDFFF then Some c2 else None
             | None \<Rightarrow> None)
          else None
      | _ \<Rightarrow> None)"

definition simple_escape :: "char \<Rightarrow> nat option" where
  "simple_escape e =
     (if e = dquote then Some 0x22
      else if e = backslash then Some 0x5C
      else if e = CHR ''/'' then Some 0x2F
      else if e = CHR ''b'' then Some 0x08
      else if e = CHR ''f'' then Some 0x0C
      else if e = CHR ''n'' then Some 0x0A
      else if e = CHR ''r'' then Some 0x0D
      else if e = CHR ''t'' then Some 0x09
      else None)"

definition scanned :: "nat \<Rightarrow> (nat list \<times> string) option \<Rightarrow> (nat list \<times> string) option" where
  "scanned u r = map_option (\<lambda>(us, rest). (u # us, rest)) r"

fun scanstring :: "string \<Rightarrow> (nat list \<times> string) option" where
  "scanstring [] = None"
| "scanstring (c # cs) =
     (if c = dquote then Some ([], cs)
      else if c = backslash then
        (case cs of
           [] \<Rightarrow> None
         | e # rest \<Rightarrow>
             if e = CHR ''u'' then
               (case hex4 rest of
                  None \<Rightarrow> None
                | Some uni \<Rightarrow>
                    (case (if 0xD800 \<le> uni \<and> uni \<le> 0xDBFF
                           then low_surrogate_escape (drop 4 rest) else None) of
                       Some uni2 \<Rightarrow>
                         scanned (0x10000 + (uni - 0xD800) * 0x400 + (uni2 - 0xDC00))
                           (scanstring (drop 10 rest))
                     | None \<Rightarrow> scanned uni (scanstring (drop 4 rest))))
             else
               (case simple_escape e of
                  None \<Rightarrow> None
                | Some u \<Rightarrow> scanned u (scanstring rest)))
      else if (of_char c :: nat) < 32 then None
      else scanned (of_char c) (scanstring cs))"

definition is_whitespace :: "char \<Rightarrow> bool" where
  "is_whitespace c = (c = CHR '' '' \<or> c = CHR 0x09 \<or> c = CHR 0x0A \<or> c = CHR 0x0D)"

definition skip_ws :: "string \<Rightarrow> string" where
  "skip_ws s = dropWhile is_whitespace s"

definition is_digit :: "char \<Rightarrow> bool" where
  "is_digit c = (48 \<le> (of_char c :: nat) \<and> (of_char c :: nat) \<le> 57)"

text \<open>
  A number is an optional minus, then \<open>0\<close> or a digit from 1 to 9 and more digits, then
  an optional fraction (a point and at least one digit) and an optional exponent (\<open>e\<close> or
  \<open>E\<close>, an optional sign, at least one digit). A fraction or exponent that is not
  complete is left unread.
\<close>

definition match_int :: "string \<Rightarrow> (string \<times> string) option" where
  "match_int s =
     (case s of
        [] \<Rightarrow> None
      | c # cs \<Rightarrow>
          if c = CHR ''0'' then Some ([c], cs)
          else if is_digit c then Some (c # takeWhile is_digit cs, dropWhile is_digit cs)
          else None)"

definition match_frac :: "string \<Rightarrow> string \<times> string" where
  "match_frac s =
     (case s of
        p # d # cs \<Rightarrow>
          if p = CHR ''.'' \<and> is_digit d
          then (p # d # takeWhile is_digit cs, dropWhile is_digit cs)
          else ([], s)
      | _ \<Rightarrow> ([], s))"

definition match_exp :: "string \<Rightarrow> string \<times> string" where
  "match_exp s =
     (case s of
        e # cs \<Rightarrow>
          if e = CHR ''e'' \<or> e = CHR ''E'' then
            (let (sign, ds) = (case cs of
                                 g # cs' \<Rightarrow> if g = CHR ''-'' \<or> g = CHR ''+'' then ([g], cs')
                                            else ([], cs)
                               | [] \<Rightarrow> ([], cs))
             in if takeWhile is_digit ds = [] then ([], s)
                else (e # sign @ takeWhile is_digit ds, dropWhile is_digit ds))
          else ([], s)
      | [] \<Rightarrow> ([], s))"

definition match_number :: "string \<Rightarrow> (json \<times> string) option" where
  "match_number s =
     (let (sign, s1) = (case s of c # cs \<Rightarrow> if c = CHR ''-'' then ([c], cs) else ([], s)
                        | [] \<Rightarrow> ([], s))
      in case match_int s1 of
           None \<Rightarrow> None
         | Some (i, s2) \<Rightarrow>
             let (f, s3) = match_frac s2; (e, s4) = match_exp s3
             in Some (JNumber (sign @ i @ f @ e), s4))"

definition match_constant :: "string \<Rightarrow> (json \<times> string) option" where
  "match_constant s =
     (if take 4 s = ''null'' then Some (JNull, drop 4 s)
      else if take 4 s = ''true'' then Some (JBool True, drop 4 s)
      else if take 5 s = ''false'' then Some (JBool False, drop 5 s)
      else if take 3 s = ''NaN'' then Some (JNumber ''NaN'', drop 3 s)
      else if take 8 s = ''Infinity'' then Some (JNumber ''Infinity'', drop 8 s)
      else if take 9 s = ''-Infinity'' then Some (JNumber ''-Infinity'', drop 9 s)
      else match_number s)"

text \<open>
  \<open>scan_once\<close> reads one value at the head of the text; \<open>parse_array\<close> and
  \<open>parse_object\<close> read the items of an array and of an object from the first item on,
  with the items read so far. Each value read is shorter than the text it was read from,
  which the tests on the lengths record: they hold in every call
  (\<open>scan_once_shorter\<close> below), and the recursion is well-founded by them.
\<close>

function scan_once :: "string \<Rightarrow> (json \<times> string) option"
  and parse_array :: "json list \<Rightarrow> string \<Rightarrow> (json \<times> string) option"
  and parse_object :: "(nat list \<times> json) list \<Rightarrow> string \<Rightarrow> (json \<times> string) option"
where
  "scan_once s =
     (case s of
        [] \<Rightarrow> None
      | c # cs \<Rightarrow>
          if c = dquote then map_option (\<lambda>(u, rest). (JString u, rest)) (scanstring cs)
          else if c = CHR ''{'' then
            (case skip_ws cs of
               [] \<Rightarrow> None
             | d # ds \<Rightarrow> if d = CHR ''}'' then Some (JObject [], ds)
                          else parse_object [] (d # ds))
          else if c = CHR ''['' then
            (case skip_ws cs of
               [] \<Rightarrow> None
             | d # ds \<Rightarrow> if d = CHR '']'' then Some (JArray [], ds)
                          else parse_array [] (d # ds))
          else match_constant s)"
| "parse_array acc s =
     (case scan_once s of
        None \<Rightarrow> None
      | Some (v, rest) \<Rightarrow>
          if length rest < length s then
            (case skip_ws rest of
               [] \<Rightarrow> None
             | d # ds \<Rightarrow>
                 if d = CHR '']'' then Some (JArray (acc @ [v]), ds)
                 else if d = CHR '','' then parse_array (acc @ [v]) (skip_ws ds)
                 else None)
          else None)"
| "parse_object acc s =
     (case s of
        [] \<Rightarrow> None
      | q # cs \<Rightarrow>
          if q = dquote then
            (case scanstring cs of
               None \<Rightarrow> None
             | Some (key, rest) \<Rightarrow>
                 (case skip_ws rest of
                    [] \<Rightarrow> None
                  | colon # r1 \<Rightarrow>
                      if colon = CHR '':'' \<and> length r1 < length s then
                        (case scan_once (skip_ws r1) of
                           None \<Rightarrow> None
                         | Some (v, r2) \<Rightarrow>
                             if length r2 < length s then
                               (case skip_ws r2 of
                                  [] \<Rightarrow> None
                                | d # ds \<Rightarrow>
                                    if d = CHR ''}'' then Some (JObject (acc @ [(key, v)]), ds)
                                    else if d = CHR '','' then
                                      parse_object (acc @ [(key, v)]) (skip_ws ds)
                                    else None)
                             else None)
                      else None))
          else None)"
  by pat_completeness auto
termination
proof (relation "measure (\<lambda>x. case x of
                     Inl s \<Rightarrow> 2 * length s
                   | Inr (Inl (acc, s)) \<Rightarrow> 2 * length s + 1
                   | Inr (Inr (acc, s)) \<Rightarrow> 2 * length s + 1)", goal_cases)
  case 1
  then show ?case by simp
next
  case (2 s c cs d ds)
  have "length (skip_ws cs) \<le> length cs"
    by (simp add: skip_ws_def length_dropWhile_le)
  with 2 show ?case by simp
next
  case (3 s c cs d ds)
  have "length (skip_ws cs) \<le> length cs"
    by (simp add: skip_ws_def length_dropWhile_le)
  with 3 show ?case by simp
next
  case (4 acc s)
  then show ?case by simp
next
  case (5 acc s x v rest d ds)
  have "length (skip_ws ds) \<le> length ds" "length (skip_ws rest) \<le> length rest"
    by (simp_all add: skip_ws_def length_dropWhile_le)
  with 5 show ?case by simp
next
  case (6 acc s q cs x key rest colon r1)
  have "length (skip_ws r1) \<le> length r1"
    by (simp add: skip_ws_def length_dropWhile_le)
  with 6 show ?case by simp
next
  case (7 acc s q cs x key rest colon r1 y v r2 d ds)
  have "length (skip_ws ds) \<le> length ds" "length (skip_ws r2) \<le> length r2"
    by (simp_all add: skip_ws_def length_dropWhile_le)
  with 7 show ?case by simp
qed

declare scan_once.simps [simp del] parse_array.simps [simp del] parse_object.simps [simp del]

text \<open>
  \<open>json.loads\<close>: white space, one value, white space, and nothing more.
\<close>

definition json_loads :: "string \<Rightarrow> py_error + json" where
  "json_loads s =
     (case scan_once (skip_ws s) of
        None \<Rightarrow> Inl JSONDecodeError
      | Some (v, rest) \<Rightarrow> if skip_ws rest = [] then Inr v else Inl JSONDecodeError)"

subsection \<open>The schema (init_db)\<close>

text \<open>
  A column declared without \<open>NOT NULL\<close> holds \<open>None\<close> for SQL NULL.
  \<open>python_version\<close> and \<open>error_name\<close> are \<open>NOT NULL\<close>. The column \<open>fix\<close> is
  \<open>fix_text\<close> here, and the \<open>id\<close> columns, which are the rowids, are \<open>env_rowid\<close> and \<open>err_rowid\<close>.
\<close>

record environment =
  env_rowid :: int
  env_python_version :: string
  env_platform :: "string option"
  env_modules :: "string option"
  env_created_at :: timestamp

record error_row =
  err_rowid :: int
  error_name :: string
  description :: "string option"
  error_type :: "string option"
  traceback :: "string option"
  fix_text :: "string option"
  complexity :: "string option"
  status :: "string option"
  tags :: "string option"
  environment_id :: "int option"
  created_at :: timestamp
  updated_at :: timestamp

record database =
  environments :: "environment list"
  environments_seq :: int
  errors :: "error_row list"
  errors_seq :: int

text \<open>
  \<open>init_db\<close> runs \<open>CREATE TABLE IF NOT EXISTS\<close> for both tables: on a fresh file
  (\<open>None\<close>) it leaves two empty tables, on an existing database it changes nothing.
\<close>

definition empty_db :: database where
  "empty_db = \<lparr>environments = [], environments_seq = 0, errors = [], errors_seq = 0\<rparr>"

definition init_db :: "database option \<Rightarrow> database" where
  "init_db file = (case file of None \<Rightarrow> empty_db | Some db \<Rightarrow> db)"

text \<open>
  \<open>INTEGER PRIMARY KEY AUTOINCREMENT\<close>: the new rowid is one more than the largest
  rowid the table has ever held, which SQLite keeps in \<open>sqlite_sequence\<close>.
\<close>

definition next_rowid :: "int \<Rightarrow> int list \<Rightarrow> int" where
  "next_rowid seq ids = fold max ids seq + 1"

subsection \<open>The environment registry\<close>

text \<open>
  \<open>s.split()[0]\<close>: the first run of characters that are not white space, an
  \<open>IndexError\<close> when there is none. \<open>is_space\<close> is \<open>str.isspace\<close>.
\<close>

definition is_space :: "char \<Rightarrow> bool" where
  "is_space c =
     (let n = (of_char c :: nat)
      in (9 \<le> n \<and> n \<le> 13) \<or> (28 \<le> n \<and> n \<le> 32) \<or> n = 133 \<or> n = 160)"

definition first_word :: "string \<Rightarrow> py_error + string" where
  "first_word s =
     (let w = takeWhile (\<lambda>c. \<not> is_space c) (dropWhile is_space s)
      in if w = [] then Inl IndexError else Inr w)"

text \<open>
  A dictionary is the list of its items in insertion order, with no key twice. The
  comprehension \<open>{d.project_name: d.version for d in installed_packages}\<close> stores the
  pairs one after the other: a key that is already there keeps its place and takes the new
  value.
\<close>

definition dict_of :: "(string \<times> string) list \<Rightarrow> (string \<times> string) list" where
  "dict_of pairs = fold (\<lambda>kv d. AList.update (fst kv) (snd kv) d) pairs []"

text \<open>The dictionary that \<open>get_current_environment\<close> returns: three strings.\<close>

record env_info =
  python_version :: string
  platform :: string
  modules :: string

text \<open>
  \<open>get_current_environment\<close> reads the interpreter: \<open>sys.version\<close>,
  \<open>platform.platform()\<close> and the working set of \<open>pkg_resources\<close>, here its arguments.
  The working set is the list of (project_name, version) in the order it is enumerated, or
  \<open>None\<close> when importing or enumerating raises, which leaves \<open>modules\<close> empty.
\<close>

definition get_current_environment ::
  "string \<Rightarrow> string \<Rightarrow> (string \<times> string) list option \<Rightarrow> py_error + env_info" where
  "get_current_environment sys_version platform_platform working_set =
     (let installed = (case working_set of None \<Rightarrow> [] | Some ds \<Rightarrow> dict_of ds)
      in case first_word sys_version of
           Inl e \<Rightarrow> Inl e
         | Inr v \<Rightarrow>
             Inr \<lparr>python_version = v, platform = platform_platform,
                  modules = json_dumps_sorted installed\<rparr>)"

text \<open>
  \<open>WHERE python_version = ? AND modules = ?\<close>: a NULL \<open>modules\<close> equals nothing.
\<close>

definition env_matches :: "string \<Rightarrow> string \<Rightarrow> environment \<Rightarrow> bool" where
  "env_matches v m r = (env_python_version r = v \<and> env_modules r = Some m)"

text \<open>
  \<open>INSERT INTO environments (python_version, platform, modules)\<close>: the
  \<open>UNIQUE(python_version, modules)\<close> constraint refuses a second row with the same
  pair; \<open>created_at\<close> takes its default, the clock.
\<close>

definition insert_environment ::
  "timestamp \<Rightarrow> string \<Rightarrow> string \<Rightarrow> string \<Rightarrow> database \<Rightarrow> (py_error + int) \<times> database" where
  "insert_environment now v p m db =
     (if list_ex (env_matches v m) (environments db) then (Inl IntegrityError, db)
      else
        let i = next_rowid (environments_seq db) (map env_rowid (environments db));
            row = \<lparr>env_rowid = i, env_python_version = v, env_platform = Some p,
                   env_modules = Some m, env_created_at = now\<rparr>
        in (Inr i, db\<lparr>environments := environments db @ [row], environments_seq := i\<rparr>))"

text \<open>
  \<open>get_or_create_environment\<close>: \<open>fetchone\<close> takes the first row of the SELECT, and
  the INSERT runs only when there is none.
\<close>

definition get_or_create_environment ::
  "timestamp \<Rightarrow> env_info \<Rightarrow> database \<Rightarrow> (py_error + int) \<times> database" where
  "get_or_create_environment now env_info db =
     (case find (env_matches (python_version env_info) (modules env_info)) (environments db) of
        Some r \<Rightarrow> (Inr (env_rowid r), db)
      | None \<Rightarrow>
          insert_environment now (python_version env_info) (platform env_info)
            (modules env_info) db)"

subsection \<open>The error repository\<close>

text \<open>
  \<open>error_data\<close> is a dictionary: a key can be missing, hold \<open>None\<close>, or hold a value.
  \<open>dict_item\<close> is \<open>d[k]\<close>, \<open>dict_get\<close> is \<open>d.get(k)\<close> and \<open>dict_get_default\<close> is
  \<open>d.get(k, default)\<close>.
\<close>

datatype 'a entry = Missing | PyNone | Val 'a

record error_data =
  d_error_name :: "string entry"
  d_description :: "string entry"
  d_error_type :: "string entry"
  d_traceback :: "string entry"
  d_fix :: "string entry"
  d_complexity :: "string entry"
  d_status :: "string entry"
  d_tags :: "string list entry"
  d_environment_id :: "int entry"

definition dict_item :: "'a entry \<Rightarrow> py_error + 'a option" where
  "dict_item x = (case x of Missing \<Rightarrow> Inl KeyError | PyNone \<Rightarrow> Inr None | Val v \<Rightarrow> Inr (Some v))"

definition dict_get :: "'a entry \<Rightarrow> 'a option" where
  "dict_get x = (case x of Missing \<Rightarrow> None | PyNone \<Rightarrow> None | Val v \<Rightarrow> Some v)"

definition dict_get_default :: "'a \<Rightarrow> 'a entry \<Rightarrow> 'a option" where
  "dict_get_default dflt x = (case x of Missing \<Rightarrow> Some dflt | PyNone \<Rightarrow> None | Val v \<Rightarrow> Some v)"

text \<open>
  \<open>INSERT INTO errors (...)\<close> with the nine values bound: \<open>error_name\<close> is
  \<open>NOT NULL\<close>, and both timestamps take their default, the clock.
\<close>

definition insert_error ::
  "timestamp \<Rightarrow> string option \<Rightarrow> string option \<Rightarrow> string option \<Rightarrow> string option \<Rightarrow>
   string option \<Rightarrow> string option \<Rightarrow> string option \<Rightarrow> string option \<Rightarrow> int option \<Rightarrow>
   database \<Rightarrow> (py_error + unit) \<times> database" where
  "insert_error now name descr etype tb fx cx st tg env db =
     (case name of
        None \<Rightarrow> (Inl IntegrityError, db)
      | Some n \<Rightarrow>
          let i = next_rowid (errors_seq db) (map err_rowid (errors db));
              row = \<lparr>err_rowid = i, error_name = n, description = descr, error_type = etype,
                     traceback = tb, fix_text = fx, complexity = cx, status = st, tags = tg,
                     environment_id = env, created_at = now, updated_at = now\<rparr>
          in (Inr (), db\<lparr>errors := errors db @ [row], errors_seq := i\<rparr>))"

text \<open>
  \<open>save_error\<close>: the tags are serialized when the list is not empty and stored as NULL
  otherwise; \<open>error_data['error_name']\<close> raises when the key is missing.
\<close>

definition save_error :: "timestamp \<Rightarrow> error_data \<Rightarrow> database \<Rightarrow> (py_error + unit) \<times> database" where
  "save_error now error_data db =
     (let tags_str = (case dict_get (d_tags error_data) of
                        None \<Rightarrow> None
                      | Some ts \<Rightarrow> if ts \<noteq> [] then Some (json_dumps_list ts) else None)
      in case dict_item (d_error_name error_data) of
           Inl e \<Rightarrow> (Inl e, db)
         | Inr name \<Rightarrow>
             insert_error now name
               (dict_get (d_description error_data))
               (dict_get (d_error_type error_data))
               (dict_get (d_traceback error_data))
               (dict_get (d_fix error_data))
               (dict_get (d_complexity error_data))
               (dict_get_default ''Open'' (d_status error_data))
               tags_str
               (dict_get (d_environment_id error_data)) db)"

text \<open>
  The columns of the DataFrame of \<open>get_errors_by_environment\<close>, and those of
  \<open>get_all_errors\<close>, which has \<open>python_version\<close> and \<open>platform\<close> of the joined
  environment as well. Neither has a column \<open>environment_id\<close>. The \<open>tags\<close> column is
  read after \<open>json.loads\<close> has been applied to it. In the other text columns \<open>None\<close>
  is the missing value pandas shows for NULL, which is \<open>None\<close> or \<open>NaN\<close> with the
  version of pandas and the rest of the column; the two listings do not look at it.
\<close>

record error_columns =
  col_id :: int
  col_error_name :: string
  col_description :: "string option"
  col_error_type :: "string option"
  col_traceback :: "string option"
  col_fix :: "string option"
  col_complexity :: "string option"
  col_status :: "string option"
  col_tags :: json
  col_created_at :: timestamp
  col_updated_at :: timestamp

record error_env_columns = error_columns +
  col_python_version :: "string option"
  col_platform :: "string option"

text \<open>
  \<open>ORDER BY e.created_at DESC\<close>: SQLite sorts the rows it scans, in rowid order, and
  leaves rows with the same key in that order.
\<close>

definition order_by_created_at_desc :: "('a \<Rightarrow> timestamp) \<Rightarrow> 'a list \<Rightarrow> 'a list" where
  "order_by_created_at_desc key rows = sort_key (\<lambda>r. - key r) rows"

text \<open>
  \<open>LEFT JOIN environments env ON e.environment_id = env.id\<close>: the row of that primary
  key, if there is one.
\<close>

definition joined_environment :: "database \<Rightarrow> error_row \<Rightarrow> environment option" where
  "joined_environment db e =
     (case environment_id e of
        None \<Rightarrow> None
      | Some i \<Rightarrow> find (\<lambda>v. env_rowid v = i) (environments db))"

definition select_errors_with_environment :: "database \<Rightarrow> (error_row \<times> environment option) list" where
  "select_errors_with_environment db =
     order_by_created_at_desc (\<lambda>r. created_at (fst r))
       (map (\<lambda>e. (e, joined_environment db e)) (errors db))"

definition select_errors_of_environment :: "int \<Rightarrow> database \<Rightarrow> error_row list" where
  "select_errors_of_environment env_id db =
     order_by_created_at_desc created_at
       (filter (\<lambda>e. environment_id e = Some env_id) (errors db))"

text \<open>
  What \<open>pd.read_sql_query\<close> puts in a cell of the \<open>tags\<close> column: the text, and for
  NULL either \<open>None\<close> or \<open>NaN\<close>. pandas reads a column by its values. From version 3
  on (the option \<open>future.infer_string\<close>, on by default there) a column that holds text
  becomes a column of strings, in which NULL is \<open>NaN\<close>; a column without text, and
  every column under earlier versions, keeps \<open>None\<close>. The repository names no version
  of pandas, so the option is an argument of both listings.
\<close>

datatype cell = CNone | CNaN | CStr string

definition cell_of :: "cell \<Rightarrow> string option \<Rightarrow> cell" where
  "cell_of null x = (case x of None \<Rightarrow> null | Some s \<Rightarrow> CStr s)"

definition read_tags_column :: "bool \<Rightarrow> string option list \<Rightarrow> cell list" where
  "read_tags_column infer_string column =
     (if infer_string \<and> list_ex (\<lambda>x. x \<noteq> None) column
      then map (cell_of CNaN) column
      else map (cell_of CNone) column)"

text \<open>
  \<open>lambda x: json.loads(x) if x else []\<close>: \<open>None\<close> and the empty text are false and
  give no tags; \<open>NaN\<close> is true, and \<open>json.loads\<close> of a float is a \<open>TypeError\<close>.
\<close>

definition loads_tags :: "cell \<Rightarrow> py_error + json" where
  "loads_tags x =
     (case x of
        CNone \<Rightarrow> Inr (JArray [])
      | CNaN \<Rightarrow> Inl TypeError
      | CStr s \<Rightarrow> if s = [] then Inr (JArray []) else json_loads s)"

text \<open>\<open>Series.apply\<close>: the rows in order; the first exception ends it.\<close>

fun apply_rows :: "('a \<Rightarrow> py_error + 'b) \<Rightarrow> 'a list \<Rightarrow> py_error + 'b list" where
  "apply_rows f [] = Inr []"
| "apply_rows f (x # xs) =
     (case f x of
        Inl e \<Rightarrow> Inl e
      | Inr y \<Rightarrow> (case apply_rows f xs of Inl e \<Rightarrow> Inl e | Inr ys \<Rightarrow> Inr (y # ys)))"

text \<open>A row of the result with the cell of its tags, after \<open>json.loads\<close>.\<close>

definition read_error :: "error_row \<times> cell \<Rightarrow> py_error + error_columns" where
  "read_error ec =
     (case loads_tags (snd ec) of
        Inl x \<Rightarrow> Inl x
      | Inr t \<Rightarrow>
          Inr \<lparr>col_id = err_rowid (fst ec), col_error_name = error_name (fst ec),
               col_description = description (fst ec), col_error_type = error_type (fst ec),
               col_traceback = traceback (fst ec), col_fix = fix_text (fst ec),
               col_complexity = complexity (fst ec), col_status = status (fst ec),
               col_tags = t,
               col_created_at = created_at (fst ec), col_updated_at = updated_at (fst ec)\<rparr>)"

definition read_error_with_environment ::
  "(error_row \<times> environment option) \<times> cell \<Rightarrow> py_error + error_env_columns" where
  "read_error_with_environment evc =
     (case loads_tags (snd evc) of
        Inl x \<Rightarrow> Inl x
      | Inr t \<Rightarrow>
          Inr \<lparr>col_id = err_rowid (fst (fst evc)), col_error_name = error_name (fst (fst evc)),
               col_description = description (fst (fst evc)),
               col_error_type = error_type (fst (fst evc)),
               col_traceback = traceback (fst (fst evc)), col_fix = fix_text (fst (fst evc)),
               col_complexity = complexity (fst (fst evc)), col_status = status (fst (fst evc)),
               col_tags = t,
               col_created_at = created_at (fst (fst evc)),
               col_updated_at = updated_at (fst (fst evc)),
               col_python_version = map_option env_python_version (snd (fst evc)),
               col_platform = Option.bind (snd (fst evc)) env_platform\<rparr>)"

text \<open>
  Both listings read the rows of their query into a DataFrame and, when it is not empty,
  replace each cell of the \<open>tags\<close> column by what the lambda makes of it.
\<close>

definition get_all_errors :: "bool \<Rightarrow> database \<Rightarrow> py_error + error_env_columns list" where
  "get_all_errors infer_string db =
     (let rows = select_errors_with_environment db;
          cells = read_tags_column infer_string (map (\<lambda>r. tags (fst r)) rows)
      in if rows \<noteq> [] then apply_rows read_error_with_environment (zip rows cells)
         else Inr [])"

definition get_errors_by_environment ::
  "bool \<Rightarrow> int \<Rightarrow> database \<Rightarrow> py_error + error_columns list" where
  "get_errors_by_environment infer_string env_id db =
     (let rows = select_errors_of_environment env_id db;
          cells = read_tags_column infer_string (map tags rows)
      in if rows \<noteq> [] then apply_rows read_error (zip rows cells) else Inr [])"

subsection \<open>The form of the page "Log Error"\<close>

text \<open>
  The values of the widgets when the form is submitted. \<open>custom_env_id\<close> is the
  environment picked in the select box, if one was picked.
\<close>

record error_form =
  f_error_name :: string
  f_error_type :: string
  f_complexity :: string
  f_status :: string
  f_tags_input :: string
  f_use_current_env :: bool
  f_custom_env_id :: "int option"
  f_description :: string
  f_traceback :: string
  f_fix :: string

datatype form_message = Please_fill_in_required_fields | Error_logged_successfully

text \<open>\<open>s.split(",")\<close> and \<open>s.strip()\<close>.\<close>

fun split_on :: "char \<Rightarrow> string \<Rightarrow> string list" where
  "split_on sep [] = [[]]"
| "split_on sep (c # cs) =
     (if c = sep then [] # split_on sep cs
      else (case split_on sep cs of
              w # ws \<Rightarrow> (c # w) # ws
            | [] \<Rightarrow> [[c]]))"

definition strip :: "string \<Rightarrow> string" where
  "strip s = rev (dropWhile is_space (rev (dropWhile is_space s)))"

definition none_if_empty :: "string \<Rightarrow> string entry" where
  "none_if_empty s = (if s \<noteq> [] then Val s else PyNone)"

text \<open>
  What runs when the form is submitted: the two required fields are tested first, and
  \<open>save_error\<close> is called only when both are filled in. \<open>env_id\<close> is the id that
  \<open>get_or_create_environment\<close> returned when the page was drawn.
\<close>

definition submit_error_form ::
  "timestamp \<Rightarrow> int \<Rightarrow> error_form \<Rightarrow> database \<Rightarrow> (py_error + form_message) \<times> database" where
  "submit_error_form now env_id f db =
     (if f_error_name f = [] \<or> f_description f = []
      then (Inr Please_fill_in_required_fields, db)
      else
        let tag_list = (if f_tags_input f \<noteq> []
                        then map strip (split_on (CHR '','') (f_tags_input f)) else []);
            error_data =
              \<lparr>d_error_name = Val (f_error_name f),
               d_description = Val (f_description f),
               d_error_type = none_if_empty (f_error_type f),
               d_traceback = none_if_empty (f_traceback f),
               d_fix = none_if_empty (f_fix f),
               d_complexity = Val (f_complexity f),
               d_status = Val (f_status f),
               d_tags = Val tag_list,
               d_environment_id =
                 (if f_use_current_env f then Val env_id
                  else (case f_custom_env_id f of None \<Rightarrow> PyNone | Some i \<Rightarrow> Val i))\<rparr>
        in case save_error now error_data db of
             (Inl e, db') \<Rightarrow> (Inl e, db')
           | (Inr u, db') \<Rightarrow> (Inr Error_logged_successfully, db'))"

subsection \<open>The page "Search & Filter"\<close>

text \<open>
  \<open>Series.str.contains(pat, case=False, na=False)\<close> compiles \<open>pat\<close> as a regular
  expression (\<open>regex=True\<close> is the default of pandas) with \<open>re.IGNORECASE\<close>, and
  searches each cell for a match; a cell that is NULL gives \<open>False\<close>.

  The regular expressions modelled are those written with literal characters and the
  dot: a literal matches the characters whose lower case is its own, the dot matches every
  character but the newline, and the search tries every position of the text. A pattern
  with another special character is outside the model: \<open>re_compile\<close> is \<open>None\<close>.
\<close>

definition lower :: "char \<Rightarrow> char" where
  "lower c =
     (let n = (of_char c :: nat)
      in if (65 \<le> n \<and> n \<le> 90) \<or> (192 \<le> n \<and> n \<le> 222 \<and> n \<noteq> 215)
         then char_of (n + 32) else c)"

definition regex_special :: "char list" where
  "regex_special = ''^$*+?{}[]|()'' @ [backslash]"

definition char_matches :: "char \<Rightarrow> char \<Rightarrow> bool" where
  "char_matches p c = (if p = CHR ''.'' then c \<noteq> CHR 0x0A else lower p = lower c)"

fun match_here :: "string \<Rightarrow> string \<Rightarrow> bool" where
  "match_here [] s = True"
| "match_here (p # ps) [] = False"
| "match_here (p # ps) (c # cs) = (char_matches p c \<and> match_here ps cs)"

definition re_compile :: "string \<Rightarrow> (string \<Rightarrow> bool) option" where
  "re_compile pat =
     (if list_ex (\<lambda>c. c \<in> set regex_special) pat then None
      else Some (\<lambda>s. list_ex (match_here pat) (suffixes s)))"

definition str_contains :: "(string \<Rightarrow> bool) \<Rightarrow> string option \<Rightarrow> bool" where
  "str_contains rx cell = (case cell of None \<Rightarrow> False | Some s \<Rightarrow> rx s)"

text \<open>
  The filters of the page, applied to the DataFrame of \<open>get_all_errors\<close>: the search
  term when it is not empty, then the selected statuses and the selected complexities,
  each when something is selected.
\<close>

definition search_and_filter ::
  "string \<Rightarrow> string option list \<Rightarrow> string option list \<Rightarrow> error_env_columns list \<Rightarrow>
   error_env_columns list option" where
  "search_and_filter search_term filter_status filter_complexity errors_df =
     (case (if search_term \<noteq> [] then
              (case re_compile search_term of
                 None \<Rightarrow> None
               | Some rx \<Rightarrow>
                   Some (filter (\<lambda>r. str_contains rx (Some (col_error_name r)) \<or>
                                      str_contains rx (col_description r)) errors_df))
            else Some errors_df) of
        None \<Rightarrow> None
      | Some df1 \<Rightarrow>
          let df2 = (if filter_status \<noteq> []
                     then filter (\<lambda>r. col_status r \<in> set filter_status) df1 else df1);
              df3 = (if filter_complexity \<noteq> []
                     then filter (\<lambda>r. col_complexity r \<in> set filter_complexity) df2 else df2)
          in Some df3)"

text \<open>
  The filter as the specification words it: the search term is a substring of the name or
  of the description, case ignored, and each selection is a membership test that
  restricts nothing when it is empty.
\<close>

definition ci_substring :: "string \<Rightarrow> string \<Rightarrow> bool" where
  "ci_substring t s = sublist (map lower t) (map lower s)"

definition spec_keeps ::
  "string \<Rightarrow> string option list \<Rightarrow> string option list \<Rightarrow> error_env_columns \<Rightarrow> bool" where
  "spec_keeps search_term filter_status filter_complexity r =
     ((ci_substring search_term (col_error_name r) \<or>
       (case col_description r of None \<Rightarrow> False | Some d \<Rightarrow> ci_substring search_term d)) \<and>
      (filter_status = [] \<or> col_status r \<in> set filter_status) \<and>
      (filter_complexity = [] \<or> col_complexity r \<in> set filter_complexity))"

subsection \<open>The states of the database\<close>

text \<open>
  The states the program reaches: it starts from the tables \<open>init_db\<close> creates, and
  only \<open>get_or_create_environment\<close> and \<open>save_error\<close> write.
\<close>

inductive reachable :: "database \<Rightarrow> bool" where
  reachable_init: "reachable (init_db None)"
| reachable_environment:
    "reachable db \<Longrightarrow> reachable (snd (get_or_create_environment now env_info db))"
| reachable_error:
    "reachable db \<Longrightarrow> reachable (snd (save_error now error_data db))"

text \<open>The key of the \<open>UNIQUE(python_version, modules)\<close> constraint.\<close>

definition environment_key :: "environment \<Rightarrow> string \<times> string option" where
  "environment_key r = (env_python_version r, env_modules r)"

definition unique_environments :: "database \<Rightarrow> bool" where
  "unique_environments db = distinct (map environment_key (environments db))"

text \<open>
  A tags column in which NULL stands beside text: the column that pandas 3 reads with
  \<open>NaN\<close> in it.
\<close>

definition null_beside_text :: "string option list \<Rightarrow> bool" where
  "null_beside_text column =
     (list_ex (\<lambda>x. x = None) column \<and> list_ex (\<lambda>x. x \<noteq> None) column)"

text \<open>
  A row read by itself, its NULL tags as \<open>None\<close>: how both listings read every row
  when no \<open>NaN\<close> is in the column (\<open>get_all_errors_rowwise\<close> below).
\<close>

definition read_plain :: "error_row \<Rightarrow> py_error + error_columns" where
  "read_plain e = read_error (e, cell_of CNone (tags e))"

definition read_plain_with_environment ::
  "error_row \<times> environment option \<Rightarrow> py_error + error_env_columns" where
  "read_plain_with_environment ev =
     read_error_with_environment (ev, cell_of CNone (tags (fst ev)))"

text \<open>The tags \<open>save_error\<close> is given: none when the key is missing or \<open>None\<close>.\<close>

definition supplied_tags :: "error_data \<Rightarrow> string list" where
  "supplied_tags d = (case dict_get (d_tags d) of None \<Rightarrow> [] | Some ts \<Rightarrow> ts)"


text \<open>
  What \<open>get_all_errors\<close> can show of a record: the record without its
  \<open>environment_id\<close>, and the python_version and platform of the joined environment.
\<close>

definition without_environment_id ::
  "database \<Rightarrow> error_row \<Rightarrow> error_row \<times> string option \<times> string option" where
  "without_environment_id db e =
     (e\<lparr>environment_id := None\<rparr>,
      map_option env_python_version (joined_environment db e),
      Option.bind (joined_environment db e) env_platform)"

subsection \<open>An example\<close>

text \<open>
  The scenario of the specification: Python 3.11.4 with pandas 2.0.1 installed, and an
  error with two tags. \<open>example_db\<close> is the database after the environment was
  registered at second 10 and an earlier error was saved at second 30.
\<close>

definition example_environment :: env_info where
  "example_environment =
     \<lparr>python_version = ''3.11.4'', platform = ''Linux-6.1-x86_64'',
      modules = json_dumps_sorted [(''pandas'', ''2.0.1'')]\<rparr>"

definition example_error :: error_data where
  "example_error =
     \<lparr>d_error_name = Val ''KeyError: x'', d_description = Val ''missing key in dict'',
      d_error_type = PyNone, d_traceback = PyNone, d_fix = PyNone,
      d_complexity = Val ''Medium'', d_status = Val ''Open'',
      d_tags = Val [''dict'', ''lookup''], d_environment_id = Val 1\<rparr>"

definition earlier_error :: error_data where
  "earlier_error =
     \<lparr>d_error_name = Val ''ValueError: bad token'', d_description = Val ''parsing failed'',
      d_error_type = Val ''ValueError'', d_traceback = PyNone, d_fix = PyNone,
      d_complexity = Val ''Low'', d_status = Missing,
      d_tags = Val [], d_environment_id = PyNone\<rparr>"

definition example_db :: database where
  "example_db =
     snd (save_error 30 earlier_error
       (snd (get_or_create_environment 10 example_environment (init_db None))))"

text \<open>
  The same with an earlier error that has a tag, so that every record of \<open>tagged_db\<close>
  and of what \<open>example_error\<close> adds to it has tags.
\<close>

definition tagged_error :: error_data where
  "tagged_error =
     \<lparr>d_error_name = Val ''TypeError: bad operand'', d_description = Val ''int plus str'',
      d_error_type = Val ''TypeError'', d_traceback = PyNone, d_fix = PyNone,
      d_complexity = Val ''Low'', d_status = Missing,
      d_tags = Val [''types''], d_environment_id = PyNone\<rparr>"

definition tagged_db :: database where
  "tagged_db =
     snd (save_error 30 tagged_error
       (snd (get_or_create_environment 10 example_environment (init_db None))))"

text \<open>
  Two errors of the registered environment, the first with two tags and the second
  with none: what the form saves when the tags field is filled in once and left empty
  once.
\<close>

definition untagged_error :: error_data where
  "untagged_error =
     \<lparr>d_error_name = Val ''KeyError: y'', d_description = Val ''missing key again'',
      d_error_type = PyNone, d_traceback = PyNone, d_fix = PyNone,
      d_complexity = Val ''Low'', d_status = Val ''Open'',
      d_tags = Val [], d_environment_id = Val 1\<rparr>"

definition mixed_db :: database where
  "mixed_db =
     snd (save_error 50 untagged_error
       (snd (save_error 40 example_error
         (snd (get_or_create_environment 10 example_environment (init_db None))))))"

text \<open>
  A database with a row whose tags are not JSON, behind a row without tags. No function
  of the program writes such a row; the file can hold it.
\<close>

definition malformed_db :: database where
  "malformed_db =
     \<lparr>environments = [], environments_seq = 0,
      errors =
        [\<lparr>err_rowid = 1, error_name = ''first'', description = None, error_type = None,
          traceback = None, fix_text = None, complexity = None, status = Some ''Open'',
          tags = None, environment_id = Some 1, created_at = 30, updated_at = 30\<rparr>,
         \<lparr>err_rowid = 2, error_name = ''second'', description = None, error_type = None,
          traceback = None, fix_text = None, complexity = None, status = Some ''Open'',
          tags = Some ''oops'', environment_id = Some 1, created_at = 40, updated_at = 40\<rparr>],
      errors_seq = 2\<rparr>"

text \<open>
  \<open>example_db\<close> with its error pointing to an environment that does not exist, which
  the foreign key allows.
\<close>

definition dangling_db :: database where
  "dangling_db = example_db\<lparr>errors := map (\<lambda>r. r\<lparr>environment_id := Some 7\<rparr>) (errors example_db)\<rparr>"

text \<open>An \<open>error_data\<close> with an empty name and an empty description, and nothing else.\<close>

definition empty_fields :: error_data where
  "empty_fields =
     \<lparr>d_error_name = Val [], d_description = Val [], d_error_type = Missing,
      d_traceback = Missing, d_fix = Missing, d_complexity = Missing, d_status = Missing,
      d_tags = Missing, d_environment_id = Missing\<rparr>"

definition empty_form :: error_form where
  "empty_form =
     \<lparr>f_error_name = [], f_error_type = [], f_complexity = ''Low'', f_status = ''Open'',
      f_tags_input = [], f_use_current_env = True, f_custom_env_id = None,
      f_description = ''something failed'', f_traceback = [], f_fix = []\<rparr>"

text \<open>Two enumerations of the same two packages, and the text of \<open>sys.version\<close>.\<close>

definition example_working_set :: "(string \<times> string) list" where
  "example_working_set = [(''pandas'', ''2.0.1''), (''numpy'', ''1.24.3'')]"

definition example_sys_version :: string where
  "example_sys_version = ''3.11.4 (main, Jun  7 2023, 10:13:09) [GCC 12.2.0]''"

text \<open>A row of the DataFrame of \<open>get_all_errors\<close>, to search.\<close>

definition example_row :: error_env_columns where
  "example_row =
     \<lparr>col_id = 1, col_error_name = ''IndexError at row 3x14'',
      col_description = Some ''index out of range'', col_error_type = None,
      col_traceback = None, col_fix = None, col_complexity = Some ''Low'',
      col_status = Some ''Open'', col_tags = JArray [],
      col_created_at = 30, col_updated_at = 30,
      col_python_version = None, col_platform = None\<rparr>"

section \<open>Properties\<close>

subsection \<open>The environment registry\<close>

lemma find_None_list_ex: "find P xs = None \<longleftrightarrow> \<not> list_ex P xs"
  by (induction xs) auto

lemma find_append_new: "find P xs = None \<Longrightarrow> P y \<Longrightarrow> find P (xs @ [y]) = Some y"
  by (induction xs) (auto split: if_splits)

lemma get_or_create_found:
  "find (env_matches (python_version e) (modules e)) (environments db) = Some r \<Longrightarrow>
   get_or_create_environment t e db = (Inr (env_rowid r), db)"
  by (simp add: get_or_create_environment_def)

lemma get_or_create_new:
  assumes "find (env_matches (python_version e) (modules e)) (environments db) = None"
  shows "get_or_create_environment t e db =
     (Inr (next_rowid (environments_seq db) (map env_rowid (environments db))),
      db\<lparr>environments := environments db @
           [\<lparr>env_rowid = next_rowid (environments_seq db) (map env_rowid (environments db)),
             env_python_version = python_version e, env_platform = Some (platform e),
             env_modules = Some (modules e), env_created_at = t\<rparr>],
         environments_seq := next_rowid (environments_seq db) (map env_rowid (environments db))\<rparr>)"
proof -
  from assms have "\<not> list_ex (env_matches (python_version e) (modules e)) (environments db)"
    by (simp add: find_None_list_ex)
  with assms show ?thesis
    by (simp add: get_or_create_environment_def insert_environment_def Let_def)
qed

lemma get_or_create_then_find:
  "\<exists>i db1 r. get_or_create_environment t e db = (Inr i, db1) \<and>
     find (env_matches (python_version e) (modules e)) (environments db1) = Some r \<and>
     env_rowid r = i"
proof (cases "find (env_matches (python_version e) (modules e)) (environments db)")
  case None
  then show ?thesis
    by (simp add: get_or_create_new find_append_new env_matches_def)
next
  case (Some r)
  then show ?thesis
    by (simp add: get_or_create_found)
qed

text \<open>
  C1. Calling \<open>get_or_create_environment\<close> twice with the same python_version and the
  same encoded module set returns the same id both times: the first call returns an id,
  and the second returns that id and leaves the database, so the environments table, as
  the first call left it.
\<close>

theorem get_or_create_environment_twice:
  assumes "python_version e2 = python_version e1" and "modules e2 = modules e1"
  shows "\<exists>i db1. get_or_create_environment t1 e1 db = (Inr i, db1) \<and>
           get_or_create_environment t2 e2 db1 = (Inr i, db1)"
proof -
  obtain i db1 r where first: "get_or_create_environment t1 e1 db = (Inr i, db1)"
    and found: "find (env_matches (python_version e1) (modules e1)) (environments db1) = Some r"
    and id: "env_rowid r = i"
    using get_or_create_then_find by blast
  from found assms have "get_or_create_environment t2 e2 db1 = (Inr (env_rowid r), db1)"
    by (simp add: get_or_create_found)
  with first id show ?thesis by simp
qed

theorem get_or_create_environment_twice_witness:
  "python_version \<lparr>python_version = ''3.11.4'', platform = ''macOS'', modules = ''{}''\<rparr> =
     python_version \<lparr>python_version = ''3.11.4'', platform = ''Linux'', modules = ''{}''\<rparr> \<and>
   modules \<lparr>python_version = ''3.11.4'', platform = ''macOS'', modules = ''{}''\<rparr> =
     modules \<lparr>python_version = ''3.11.4'', platform = ''Linux'', modules = ''{}''\<rparr> \<and>
   (\<exists>i db1.
      get_or_create_environment 10
        \<lparr>python_version = ''3.11.4'', platform = ''Linux'', modules = ''{}''\<rparr> empty_db = (Inr i, db1) \<and>
      get_or_create_environment 20
        \<lparr>python_version = ''3.11.4'', platform = ''macOS'', modules = ''{}''\<rparr> db1 = (Inr i, db1))"
  using get_or_create_environment_twice
    [of "\<lparr>python_version = ''3.11.4'', platform = ''macOS'', modules = ''{}''\<rparr>"
        "\<lparr>python_version = ''3.11.4'', platform = ''Linux'', modules = ''{}''\<rparr>" 10 empty_db 20]
  by simp

text \<open>
  C6. For two snapshots with the same python_version and the same encoded module set,
  whatever their platforms: both calls return the same id and the second changes nothing
  in the database; the first call inserts one row, carrying the platform of the first
  snapshot, when no row has that pair, and no row otherwise; and the row of the pair is
  that row afterwards, with the platform it was first stored with.
\<close>

theorem first_platform_is_kept:
  assumes "python_version e2 = python_version e1" and "modules e2 = modules e1"
  shows "\<exists>i db1 r.
           get_or_create_environment t1 e1 db = (Inr i, db1) \<and>
           get_or_create_environment t2 e2 db1 = (Inr i, db1) \<and>
           find (env_matches (python_version e1) (modules e1)) (environments db1) = Some r \<and>
           env_rowid r = i \<and>
           (if list_ex (env_matches (python_version e1) (modules e1)) (environments db)
            then db1 = db
            else environments db1 = environments db @ [r] \<and>
                 env_platform r = Some (platform e1))"
proof (cases "find (env_matches (python_version e1) (modules e1)) (environments db)")
  case None
  let ?i = "next_rowid (environments_seq db) (map env_rowid (environments db))"
  let ?r = "\<lparr>env_rowid = ?i, env_python_version = python_version e1,
             env_platform = Some (platform e1), env_modules = Some (modules e1),
             env_created_at = t1\<rparr>"
  let ?db1 = "db\<lparr>environments := environments db @ [?r], environments_seq := ?i\<rparr>"
  have first: "get_or_create_environment t1 e1 db = (Inr ?i, ?db1)"
    using None by (rule get_or_create_new)
  have found: "find (env_matches (python_version e1) (modules e1)) (environments ?db1) = Some ?r"
    using None by (simp add: find_append_new env_matches_def)
  with assms have second: "get_or_create_environment t2 e2 ?db1 = (Inr ?i, ?db1)"
    using get_or_create_found [of e2 ?db1 ?r t2] by simp
  have "\<not> list_ex (env_matches (python_version e1) (modules e1)) (environments db)"
    using None by (simp add: find_None_list_ex)
  with first second found show ?thesis by simp
next
  case (Some r)
  then have first: "get_or_create_environment t1 e1 db = (Inr (env_rowid r), db)"
    by (rule get_or_create_found)
  from Some assms have second: "get_or_create_environment t2 e2 db = (Inr (env_rowid r), db)"
    using get_or_create_found [of e2 db r t2] by simp
  have "list_ex (env_matches (python_version e1) (modules e1)) (environments db)"
    using Some find_None_list_ex [of "env_matches (python_version e1) (modules e1)" "environments db"]
    by auto
  with first second Some show ?thesis by simp
qed

theorem first_platform_is_kept_witness:
  "python_version \<lparr>python_version = ''3.11.4'', platform = ''macOS'', modules = ''{}''\<rparr> =
     python_version \<lparr>python_version = ''3.11.4'', platform = ''Linux'', modules = ''{}''\<rparr> \<and>
   modules \<lparr>python_version = ''3.11.4'', platform = ''macOS'', modules = ''{}''\<rparr> =
     modules \<lparr>python_version = ''3.11.4'', platform = ''Linux'', modules = ''{}''\<rparr> \<and>
   (\<exists>i db1 r.
      get_or_create_environment 10
        \<lparr>python_version = ''3.11.4'', platform = ''Linux'', modules = ''{}''\<rparr> empty_db = (Inr i, db1) \<and>
      get_or_create_environment 20
        \<lparr>python_version = ''3.11.4'', platform = ''macOS'', modules = ''{}''\<rparr> db1 = (Inr i, db1) \<and>
      environments db1 = [r] \<and> env_platform r = Some ''Linux'')"
proof -
  have "\<not> list_ex (env_matches ''3.11.4'' ''{}'') (environments empty_db)"
    by (simp add: empty_db_def)
  then show ?thesis
    using first_platform_is_kept
      [of "\<lparr>python_version = ''3.11.4'', platform = ''macOS'', modules = ''{}''\<rparr>"
          "\<lparr>python_version = ''3.11.4'', platform = ''Linux'', modules = ''{}''\<rparr>" 10 empty_db 20]
    by (auto simp: empty_db_def)
qed

lemma save_error_environments: "environments (snd (save_error now d db)) = environments db"
  by (simp add: save_error_def insert_error_def Let_def split: sum.split option.split)

lemma get_or_create_unique:
  assumes "unique_environments db"
  shows "unique_environments (snd (get_or_create_environment now e db))"
proof (cases "find (env_matches (python_version e) (modules e)) (environments db)")
  case None
  then have "\<not> list_ex (env_matches (python_version e) (modules e)) (environments db)"
    by (simp add: find_None_list_ex)
  then have "(python_version e, Some (modules e)) \<notin> environment_key ` set (environments db)"
    by (auto simp: list_ex_iff env_matches_def environment_key_def)
  with assms None show ?thesis
    by (simp add: get_or_create_new unique_environments_def environment_key_def)
next
  case (Some r)
  with assms show ?thesis
    by (simp add: get_or_create_found)
qed

lemma reachable_unique: "reachable db \<Longrightarrow> unique_environments db"
proof (induction rule: reachable.induct)
  case reachable_init
  show ?case by (simp add: init_db_def empty_db_def unique_environments_def)
next
  case (reachable_environment db now env_info)
  then show ?case by (simp add: get_or_create_unique)
next
  case (reachable_error db now error_data)
  then show ?case by (simp add: unique_environments_def save_error_environments)
qed

text \<open>
  C5. No two rows of the environments table have the same (python_version, modules)
  pair in any state the program reaches; it holds of the tables \<open>init_db\<close> creates, and
  \<open>init_db\<close> and the two writing operations keep it from any state where it holds. The
  listing operations do not write.
\<close>

theorem unique_environments_invariant:
  "(reachable db \<longrightarrow> unique_environments db) \<and>
   unique_environments (init_db None) \<and>
   (unique_environments db \<longrightarrow>
      unique_environments (init_db (Some db)) \<and>
      unique_environments (snd (get_or_create_environment now e db)) \<and>
      unique_environments (snd (save_error now d db)))"
proof -
  have "unique_environments (snd (save_error now d db)) = unique_environments db"
    by (simp add: unique_environments_def save_error_environments)
  moreover have "unique_environments (init_db None)"
    by (simp add: init_db_def empty_db_def unique_environments_def)
  moreover have "init_db (Some db) = db"
    by (simp add: init_db_def)
  ultimately show ?thesis
    using reachable_unique [of db] get_or_create_unique [of db now e] by auto
qed

theorem unique_environments_invariant_witness:
  "reachable (snd (get_or_create_environment 10
      \<lparr>python_version = ''3.11.4'', platform = ''Linux'', modules = ''{}''\<rparr> (init_db None))) \<and>
   unique_environments (snd (get_or_create_environment 10
      \<lparr>python_version = ''3.11.4'', platform = ''Linux'', modules = ''{}''\<rparr> (init_db None))) \<and>
   unique_environments (snd (get_or_create_environment 20
      \<lparr>python_version = ''3.12.0'', platform = ''Linux'', modules = ''{}''\<rparr>
      (snd (get_or_create_environment 10
         \<lparr>python_version = ''3.11.4'', platform = ''Linux'', modules = ''{}''\<rparr> (init_db None)))))"
proof -
  let ?e = "\<lparr>python_version = ''3.11.4'', platform = ''Linux'', modules = ''{}''\<rparr>"
  let ?e' = "\<lparr>python_version = ''3.12.0'', platform = ''Linux'', modules = ''{}''\<rparr>"
  let ?db = "snd (get_or_create_environment 10 ?e (init_db None))"
  have r: "reachable ?db"
    by (rule reachable_environment) (rule reachable_init)
  with unique_environments_invariant [where db = ?db and now = 20 and e = ?e']
  show ?thesis by simp
qed

subsection \<open>Listing the errors\<close>

lemma insort_key_map:
  "insort_key f (g x) (map g xs) = map g (insort_key (\<lambda>y. f (g y)) x xs)"
  by (induction xs) auto

lemma sort_key_map: "sort_key f (map g xs) = map g (sort_key (\<lambda>y. f (g y)) xs)"
  by (induction xs) (auto simp: insort_key_map)

lemma select_errors_with_environment_map:
  "select_errors_with_environment db =
     map (\<lambda>e. (e, joined_environment db e)) (order_by_created_at_desc created_at (errors db))"
  by (simp add: select_errors_with_environment_def order_by_created_at_desc_def sort_key_map)


lemma set_order_by_created_at_desc [simp]: "set (order_by_created_at_desc key xs) = set xs"
  by (simp add: order_by_created_at_desc_def)

lemma null_beside_text_set:
  "set xs = set ys \<Longrightarrow> null_beside_text (map f xs) = null_beside_text (map f ys)"
  by (simp add: null_beside_text_def list_ex_iff)


lemma read_tags_column_plain:
  assumes "\<not> (p \<and> null_beside_text column)"
  shows "read_tags_column p column = map (cell_of CNone) column"
proof (cases "p \<and> list_ex (\<lambda>x. x \<noteq> None) column")
  case True
  with assms have "None \<notin> set column"
    by (auto simp: null_beside_text_def list_ex_iff)
  then have "cell_of CNaN x = cell_of CNone x" if "x \<in> set column" for x
    using that by (cases x) (auto simp: cell_of_def)
  then have "map (cell_of CNaN) column = map (cell_of CNone) column"
    by simp
  with True show ?thesis
    by (simp add: read_tags_column_def)
next
  case False
  then show ?thesis
    by (auto simp: read_tags_column_def)
qed

lemma read_tags_column_NaN:
  assumes "p" and "null_beside_text column"
  shows "CNaN \<in> set (read_tags_column p column)"
proof -
  from assms(2) have "None \<in> set column" and "list_ex (\<lambda>x. x \<noteq> None) column"
    by (auto simp: null_beside_text_def list_ex_iff)
  with assms(1) show ?thesis
    by (force simp: read_tags_column_def cell_of_def)
qed

lemma length_read_tags_column [simp]: "length (read_tags_column p column) = length column"
  by (simp add: read_tags_column_def)

lemma apply_rows_Inl:
  "x \<in> set xs \<Longrightarrow> f x = Inl e \<Longrightarrow> \<exists>e'. apply_rows f xs = Inl e'"
  by (induction xs) (auto split: sum.splits)

lemma apply_rows_NaN:
  assumes "CNaN \<in> set cells" and "length cells = length rows"
    and "\<And>r. f (r, CNaN) = Inl TypeError"
  shows "\<exists>e. apply_rows f (zip rows cells) = Inl e"
proof -
  from assms(1,2) obtain r where "(r, CNaN) \<in> set (zip rows cells)"
    by (metis in_set_impl_in_set_zip2)
  then show ?thesis
    using assms(3) [of r] by (rule apply_rows_Inl)
qed

lemma zip_map_same: "zip xs (map f xs) = map (\<lambda>x. (x, f x)) xs"
  by (induction xs) simp_all

lemma apply_rows_map: "apply_rows f (map g xs) = apply_rows (\<lambda>x. f (g x)) xs"
  by (induction xs) (simp_all split: sum.split)

text \<open>
  Without \<open>NaN\<close> in the column, which is so for every version of pandas when NULL does
  not stand beside text, the rows are read one by one; and a listing that returns has
  read no \<open>NaN\<close>.
\<close>

lemma read_plain_fun:
  "read_plain = (\<lambda>r. read_error (r, cell_of CNone (tags r)))"
  "read_plain_with_environment =
     (\<lambda>r. read_error_with_environment (r, cell_of CNone (tags (fst r))))"
  by (rule ext, simp add: read_plain_def read_plain_with_environment_def)+

lemma get_all_errors_rowwise:
  assumes "\<not> (p \<and> null_beside_text (map tags (errors db)))"
  shows "get_all_errors p db =
     apply_rows read_plain_with_environment (select_errors_with_environment db)"
proof -
  let ?rows = "select_errors_with_environment db"
  have "null_beside_text (map (\<lambda>r. tags (fst r)) ?rows) =
      null_beside_text (map tags (order_by_created_at_desc created_at (errors db)))"
    by (simp add: select_errors_with_environment_map o_def)
  also have "\<dots> = null_beside_text (map tags (errors db))"
    by (rule null_beside_text_set) simp
  finally have "read_tags_column p (map (\<lambda>r. tags (fst r)) ?rows) =
      map (cell_of CNone) (map (\<lambda>r. tags (fst r)) ?rows)"
    using assms by (intro read_tags_column_plain) simp
  then have "zip ?rows (read_tags_column p (map (\<lambda>r. tags (fst r)) ?rows)) =
      map (\<lambda>r. (r, cell_of CNone (tags (fst r)))) ?rows"
    using zip_map_same [of ?rows "\<lambda>r. cell_of CNone (tags (fst r))"] by (simp add: o_def)
  then show ?thesis
    by (cases "?rows = []")
      (simp_all add: get_all_errors_def Let_def apply_rows_map read_plain_fun)
qed

lemma get_errors_by_environment_rowwise:
  assumes "\<not> (p \<and> null_beside_text
      (map tags (filter (\<lambda>r. environment_id r = Some i) (errors db))))"
  shows "get_errors_by_environment p i db =
     apply_rows read_plain (select_errors_of_environment i db)"
proof -
  let ?rows = "select_errors_of_environment i db"
  have "null_beside_text (map tags ?rows) =
      null_beside_text (map tags (filter (\<lambda>r. environment_id r = Some i) (errors db)))"
    by (rule null_beside_text_set) (simp add: select_errors_of_environment_def)
  with assms have "read_tags_column p (map tags ?rows) = map (cell_of CNone) (map tags ?rows)"
    by (intro read_tags_column_plain) simp
  then have "zip ?rows (read_tags_column p (map tags ?rows)) =
      map (\<lambda>r. (r, cell_of CNone (tags r))) ?rows"
    using zip_map_same [of ?rows "\<lambda>r. cell_of CNone (tags r)"] by (simp add: o_def)
  then show ?thesis
    by (cases "?rows = []")
      (simp_all add: get_errors_by_environment_def Let_def apply_rows_map read_plain_fun)
qed

lemma get_all_errors_returns:
  assumes "get_all_errors p db = Inr df"
  shows "\<not> (p \<and> null_beside_text (map tags (errors db)))"
proof
  assume mixed: "p \<and> null_beside_text (map tags (errors db))"
  let ?rows = "select_errors_with_environment db"
  let ?column = "map (\<lambda>r. tags (fst r)) ?rows"
  have "null_beside_text ?column = null_beside_text (map tags (errors db))"
    using null_beside_text_set [of "order_by_created_at_desc created_at (errors db)" "errors db" tags]
    by (simp add: select_errors_with_environment_map o_def)
  with mixed have column: "null_beside_text ?column"
    by simp
  then have rows: "?rows \<noteq> []"
    by (auto simp: null_beside_text_def)
  from mixed column have "CNaN \<in> set (read_tags_column p ?column)"
    by (intro read_tags_column_NaN) simp_all
  then have "\<exists>e. apply_rows read_error_with_environment
      (zip ?rows (read_tags_column p ?column)) = Inl e"
    by (rule apply_rows_NaN) (simp_all add: read_error_with_environment_def loads_tags_def)
  with rows assms show False
    by (simp add: get_all_errors_def Let_def)
qed


lemma read_error_truncate:
  "read_error (e, c) = map_sum id error_columns.truncate (read_error_with_environment ((e, v), c))"
  by (simp add: read_error_def read_error_with_environment_def error_columns.truncate_def
      split: sum.split)

lemma apply_rows_truncate:
  "apply_rows read_error (zip xs cs) =
     map_sum id (map error_columns.truncate)
       (apply_rows read_error_with_environment (zip (map (\<lambda>e. (e, j e)) xs) cs))"
proof (induction xs arbitrary: cs)
  case Nil
  show ?case by simp
next
  case (Cons x xs)
  show ?case
  proof (cases cs)
    case Nil
    then show ?thesis by simp
  next
    case (Cons c cs')
    show ?thesis
      using Cons.IH [of cs'] read_error_truncate [of x c "j x"]
      by (cases "read_error_with_environment ((x, j x), c)";
          cases "apply_rows read_error_with_environment (zip (map (\<lambda>e. (e, j e)) xs) cs')")
        (simp_all add: Cons)
  qed
qed


lemma apply_rows_columns:
  assumes "apply_rows f xs = Inr ys" and "\<And>x y. x \<in> set xs \<Longrightarrow> f x = Inr y \<Longrightarrow> g y = h x"
  shows "map g ys = map h xs"
  using assms
proof (induction xs arbitrary: ys)
  case Nil
  then show ?case by simp
next
  case (Cons x xs)
  from Cons.prems(1) obtain y ys' where *: "f x = Inr y" "apply_rows f xs = Inr ys'" "ys = y # ys'"
    by (auto split: sum.splits)
  from Cons.prems(2) [of x y] * have "g y = h x"
    by simp
  moreover from Cons.IH [OF *(2)] Cons.prems(2) have "map g ys' = map h xs"
    by simp
  ultimately show ?case
    using * by simp
qed


lemma sorted_filter_created_at:
  "map created_at (filter P (order_by_created_at_desc created_at xs)) =
   map created_at (order_by_created_at_desc created_at (filter P xs))"
  by (simp add: order_by_created_at_desc_def filter_sort)



lemma joined_environment_errors_update:
  "joined_environment (db\<lparr>errors := es\<rparr>) = joined_environment db"
  by (rule ext) (simp add: joined_environment_def split: option.split)

lemma get_errors_by_environment_of_subset:
  "get_errors_by_environment p e db =
     map_sum id (map error_columns.truncate)
       (get_all_errors p
          (db\<lparr>errors := filter (\<lambda>r. environment_id r = Some e) (errors db)\<rparr>))"
proof -
  let ?db = "db\<lparr>errors := filter (\<lambda>r. environment_id r = Some e) (errors db)\<rparr>"
  let ?rows = "select_errors_of_environment e db"
  have rows: "select_errors_with_environment ?db =
      map (\<lambda>r. (r, joined_environment db r)) ?rows"
    by (simp add: select_errors_with_environment_map select_errors_of_environment_def
        joined_environment_errors_update)
  show ?thesis
    unfolding get_all_errors_def get_errors_by_environment_def rows Let_def
    using apply_rows_truncate [of ?rows "read_tags_column p (map tags ?rows)" "joined_environment db"]
    by (simp add: o_def)
qed


subsection \<open>The json module: what is written is read back\<close>

lemma hex_value_hex_digit: "d < 16 \<Longrightarrow> hex_value (hex_digit d) = Some d"
  by (auto simp: hex_value_def hex_digit_def Let_def)

lemma of_char_less_256: "(of_char c :: nat) < 256"
  by (metis of_char_mod_256 mod_less_divisor zero_less_numeral)

lemma hex4_digits:
  assumes "a < 16" "b < 16" "c < 16" "d < 16"
  shows "hex4 (hex_digit a # hex_digit b # hex_digit c # hex_digit d # rest) =
           Some (((a * 16 + b) * 16 + c) * 16 + d)"
  using assms by (simp add: hex4_def hex_value_hex_digit)

lemma scanstring_unicode_escape:
  assumes "n < 256"
  shows "scanstring (unicode_escape n @ rest) = scanned n (scanstring rest)"
proof -
  let ?a = "n div 4096 mod 16" and ?b = "n div 256 mod 16"
  let ?c = "n div 16 mod 16" and ?d = "n mod 16"
  have val: "((?a * 16 + ?b) * 16 + ?c) * 16 + ?d = n"
    using assms by simp
  have "hex4 (hex_digit ?a # hex_digit ?b # hex_digit ?c # hex_digit ?d # rest) =
      Some (((?a * 16 + ?b) * 16 + ?c) * 16 + ?d)"
    by (rule hex4_digits) simp_all
  then have digits: "hex4 (hex_digit ?a # hex_digit ?b # hex_digit ?c # hex_digit ?d # rest) = Some n"
    by (simp only: val)
  have small: "\<not> 55296 \<le> n"
    using assms by simp
  have "scanstring (backslash # CHR ''u'' # hex_digit ?a # hex_digit ?b # hex_digit ?c #
          hex_digit ?d # rest) = scanned n (scanstring rest)"
    by (subst scanstring.simps) (simp add: digits small del: scanstring.simps)
  then show ?thesis
    by (simp only: unicode_escape_def append_Cons append_Nil)
qed

lemma scanstring_escape_char:
  "scanstring (escape_char c @ rest) = scanned (of_char c) (scanstring rest)"
proof -
  let ?n = "of_char c :: nat"
  consider (plain) "32 \<le> ?n" "?n \<le> 126" "c \<noteq> backslash" "c \<noteq> dquote"
    | (short) "c \<in> {backslash, dquote, CHR 0x08, CHR 0x0C, CHR 0x0A, CHR 0x0D, CHR 0x09}"
    | (hex) "\<not> (32 \<le> ?n \<and> ?n \<le> 126 \<and> c \<noteq> backslash \<and> c \<noteq> dquote)"
        "c \<notin> {backslash, dquote, CHR 0x08, CHR 0x0C, CHR 0x0A, CHR 0x0D, CHR 0x09}"
    by blast
  then show ?thesis
  proof cases
    case plain
    then show ?thesis
      by (simp add: escape_char_def)
  next
    case short
    then show ?thesis
      by (auto simp: escape_char_def simple_escape_def)
  next
    case hex
    then have "escape_char c = unicode_escape ?n"
      by (auto simp: escape_char_def Let_def)
    then show ?thesis
      by (simp only: scanstring_unicode_escape [OF of_char_less_256])
  qed
qed

lemma scanstring_escaped:
  "scanstring (concat (map escape_char s) @ dquote # rest) = Some (map of_char s, rest)"
  by (induction s) (simp_all add: scanstring_escape_char scanned_def)

lemma scan_once_string:
  "scan_once (encode_basestring_ascii s @ rest) = Some (JString (map of_char s), rest)"
  by (subst scan_once.simps) (simp add: encode_basestring_ascii_def scanstring_escaped)


lemma skip_ws_not_whitespace: "\<not> is_whitespace c \<Longrightarrow> skip_ws (c # cs) = c # cs"
  by (simp add: skip_ws_def)

lemma encoded_not_Nil: "encode_basestring_ascii s \<noteq> []"
  by (simp add: encode_basestring_ascii_def)

lemma skip_ws_encoded: "skip_ws (encode_basestring_ascii s @ rest) = encode_basestring_ascii s @ rest"
  by (simp add: encode_basestring_ascii_def skip_ws_def is_whitespace_def)

lemma str_join_encoded:
  "str_join '', '' (encode_basestring_ascii x # map encode_basestring_ascii xs) =
     encode_basestring_ascii x @
     concat (map (\<lambda>y. CHR '','' # CHR '' '' # encode_basestring_ascii y) xs)"
  by (induction xs arbitrary: x) simp_all

lemma parse_array_step:
  "parse_array acc (encode_basestring_ascii x @ rest) =
     (case skip_ws rest of
        [] \<Rightarrow> None
      | d # ds \<Rightarrow>
          if d = CHR '']'' then Some (JArray (acc @ [JString (map of_char x)]), ds)
          else if d = CHR '','' then parse_array (acc @ [JString (map of_char x)]) (skip_ws ds)
          else None)"
  by (subst parse_array.simps) (simp add: scan_once_string encoded_not_Nil)

lemma parse_array_encoded:
  "parse_array acc
     (encode_basestring_ascii x @
      concat (map (\<lambda>y. CHR '','' # CHR '' '' # encode_basestring_ascii y) xs) @ CHR '']'' # rest) =
   Some (JArray (acc @ map (\<lambda>t. JString (map of_char t)) (x # xs)), rest)"
proof (induction xs arbitrary: acc x)
  case Nil
  show ?case
    by (simp add: parse_array_step skip_ws_def is_whitespace_def)
next
  case (Cons y ys)
  let ?tail = "concat (map (\<lambda>y. CHR '','' # CHR '' '' # encode_basestring_ascii y) ys) @
      CHR '']'' # rest"
  have "skip_ws (CHR '' '' # encode_basestring_ascii y @ ?tail) = encode_basestring_ascii y @ ?tail"
    using skip_ws_encoded [of y ?tail] by (simp add: skip_ws_def is_whitespace_def)
  then have "parse_array acc
      (encode_basestring_ascii x @ CHR '','' # CHR '' '' # encode_basestring_ascii y @ ?tail) =
    parse_array (acc @ [JString (map of_char x)]) (encode_basestring_ascii y @ ?tail)"
    by (simp add: parse_array_step skip_ws_not_whitespace is_whitespace_def)
  then show ?case
    by (simp add: Cons.IH)
qed

lemma json_loads_dumps_list:
  "json_loads (json_dumps_list xs) = Inr (JArray (map (\<lambda>t. JString (map of_char t)) xs))"
proof (cases xs)
  case Nil
  show ?thesis
    unfolding Nil
    by (simp add: json_loads_def json_dumps_list_def skip_ws_def is_whitespace_def scan_once.simps)
next
  case (Cons x xs')
  let ?body = "encode_basestring_ascii x @
      concat (map (\<lambda>y. CHR '','' # CHR '' '' # encode_basestring_ascii y) xs') @ '']''"
  have dumps: "json_dumps_list xs = CHR ''['' # ?body"
    by (simp add: Cons json_dumps_list_def str_join_encoded del: str_join.simps)
  have ws: "skip_ws ?body = ?body"
    by (rule skip_ws_encoded)
  obtain ds where body: "?body = dquote # ds"
    by (simp add: encode_basestring_ascii_def)
  have items: "parse_array [] ?body = Some (JArray (map (\<lambda>t. JString (map of_char t)) xs), [])"
    using parse_array_encoded [of "[]" x xs' "[]"] by (simp add: Cons)
  have "scan_once (CHR ''['' # ?body) =
      Some (JArray (map (\<lambda>t. JString (map of_char t)) xs), [])"
    by (subst scan_once.simps) (simp add: ws, simp add: body items [unfolded body])
  then show ?thesis
    by (simp add: json_loads_def dumps skip_ws_def is_whitespace_def)
qed

lemma scanned_Some: "scanned n x = Some (u, r) \<longleftrightarrow> (\<exists>us. x = Some (us, r) \<and> u = n # us)"
  by (cases x) (auto simp: scanned_def)

lemma scanstring_unfold:
  assumes "scanstring (c # cs) = Some (u, r)"
  shows "r = cs \<or> (\<exists>t us. length t \<le> length cs \<and> scanstring t = Some (us, r))"
proof (cases "c = dquote")
  case True
  with assms show ?thesis by simp
next
  case quote: False
  show ?thesis
  proof (cases "c = backslash")
    case False
    with quote assms have "\<exists>us. scanstring cs = Some (us, r)"
      by (auto simp: scanned_Some split: if_splits)
    then show ?thesis by blast
  next
    case True
    with assms obtain e rest where cs: "cs = e # rest"
      by (cases cs) auto
    have "\<exists>t us. (t = rest \<or> t = drop 4 rest \<or> t = drop 10 rest) \<and> scanstring t = Some (us, r)"
      using assms quote True cs
      by (auto simp: scanned_Some split: option.splits if_splits)
    then obtain t us where "t = rest \<or> t = drop 4 rest \<or> t = drop 10 rest"
      "scanstring t = Some (us, r)"
      by blast
    moreover from this(1) cs have "length t \<le> length cs"
      by auto
    ultimately show ?thesis by blast
  qed
qed

lemma scanstring_shorter: "scanstring cs = Some (u, r) \<Longrightarrow> length r < length cs"
proof (induction "length cs" arbitrary: cs u r rule: less_induct)
  case less
  from less.prems obtain c cs' where cs: "cs = c # cs'"
    by (cases cs) auto
  from scanstring_unfold [OF less.prems [unfolded cs]]
  show ?case
  proof
    assume "r = cs'"
    with cs show ?thesis by simp
  next
    assume "\<exists>t us. length t \<le> length cs' \<and> scanstring t = Some (us, r)"
    then obtain t us where t: "length t \<le> length cs'" "scanstring t = Some (us, r)"
      by blast
    with cs have "length t < length cs" by simp
    from less.hyps [OF this t(2)] t(1) cs show ?thesis by simp
  qed
qed

lemma match_int_shorter: "match_int s = Some (i, r) \<Longrightarrow> length r < length s"
  by (auto simp: match_int_def less_Suc_eq_le length_dropWhile_le split: list.splits if_splits)

lemma match_frac_shorter: "match_frac s = (f, r) \<Longrightarrow> length r \<le> length s"
  by (auto simp: match_frac_def le_SucI length_dropWhile_le split: list.splits if_splits)

lemma match_exp_shorter: "match_exp s = (e, r) \<Longrightarrow> length r \<le> length s"
  by (auto simp: match_exp_def le_SucI length_dropWhile_le Let_def
      split: list.splits if_splits prod.splits)

lemma match_number_shorter:
  assumes "match_number s = Some (v, r)"
  shows "length r < length s"
proof -
  obtain sign s1 where s1: "(case s of c # cs \<Rightarrow> if c = CHR ''-'' then ([c], cs) else ([], s)
                        | [] \<Rightarrow> ([], s)) = (sign, s1)"
    by fastforce
  then have l1: "length s1 \<le> length s"
    by (auto split: list.splits if_splits)
  from assms s1 obtain i s2 where i: "match_int s1 = Some (i, s2)"
    by (auto simp: match_number_def split: option.splits)
  obtain f s3 where f: "match_frac s2 = (f, s3)" by fastforce
  obtain e s4 where e: "match_exp s3 = (e, s4)" by fastforce
  from assms s1 i f e have "r = s4"
    by (simp add: match_number_def)
  with l1 match_int_shorter [OF i] match_frac_shorter [OF f] match_exp_shorter [OF e]
  show ?thesis by simp
qed

lemma take_Cons_drop_shorter: "take n s = c # w \<Longrightarrow> length s - n < length s"
  by (cases n; cases s) auto

lemma match_constant_shorter:
  assumes "match_constant s = Some (v, r)"
  shows "length r < length s"
  using assms match_number_shorter [of s v r]
  by (auto simp: match_constant_def split: if_splits dest: take_Cons_drop_shorter)

lemma skip_ws_length: "length (skip_ws s) \<le> length s"
  by (simp add: skip_ws_def length_dropWhile_le)

lemma skip_ws_Cons_length: "skip_ws s = d # ds \<Longrightarrow> length ds < length s"
  using skip_ws_length [of s] by simp

text \<open>
  Every value read is shorter than the text it is read from, so the tests on the lengths
  in \<open>parse_array\<close> and \<open>parse_object\<close> never fail.
\<close>

lemma scan_once_shorter:
  "(scan_once s = Some (v, r) \<longrightarrow> length r < length s) \<and>
   (parse_array acc s = Some (v, r) \<longrightarrow> length r < length s) \<and>
   (parse_object acc' s = Some (v, r) \<longrightarrow> length r < length s)"
proof (induction "length s" arbitrary: s v r acc acc' rule: less_induct)
  case less
  have IH_array: "length t < length s \<Longrightarrow> parse_array a t = Some (v, r) \<Longrightarrow> length r < length t"
    for t a v r
    using less.hyps by blast
  have IH_object: "length t < length s \<Longrightarrow> parse_object a t = Some (v, r) \<Longrightarrow> length r < length t"
    for t a v r
    using less.hyps by blast
  have once: "scan_once s = Some (v, r) \<Longrightarrow> length r < length s" for v r
  proof -
    assume a: "scan_once s = Some (v, r)"
    then obtain c cs where s: "s = c # cs"
      by (cases s) (auto simp: scan_once.simps)
    consider (str) "c = dquote" | (obj) "c = CHR ''{''" | (arr) "c = CHR ''[''"
      | (const) "c \<noteq> dquote" "c \<noteq> CHR ''{''" "c \<noteq> CHR ''[''"
      by blast
    then show ?thesis
    proof cases
      case str
      with a s obtain u where "scanstring cs = Some (u, r)"
        by (auto simp: scan_once.simps)
      from scanstring_shorter [OF this] s show ?thesis by simp
    next
      case obj
      with a s obtain d ds where ws: "skip_ws cs = d # ds"
        and *: "d = CHR ''}'' \<and> r = ds \<or> parse_object [] (d # ds) = Some (v, r)"
        by (auto simp: scan_once.simps split: list.splits if_splits)
      from ws have l: "length (d # ds) < length s"
        using skip_ws_length [of cs] s by simp
      from * show ?thesis
      proof
        assume "d = CHR ''}'' \<and> r = ds"
        with l show ?thesis by simp
      next
        assume "parse_object [] (d # ds) = Some (v, r)"
        from IH_object [OF l this] l show ?thesis by simp
      qed
    next
      case arr
      with a s obtain d ds where ws: "skip_ws cs = d # ds"
        and *: "d = CHR '']'' \<and> r = ds \<or> parse_array [] (d # ds) = Some (v, r)"
        by (auto simp: scan_once.simps split: list.splits if_splits)
      from ws have l: "length (d # ds) < length s"
        using skip_ws_length [of cs] s by simp
      from * show ?thesis
      proof
        assume "d = CHR '']'' \<and> r = ds"
        with l show ?thesis by simp
      next
        assume "parse_array [] (d # ds) = Some (v, r)"
        from IH_array [OF l this] l show ?thesis by simp
      qed
    next
      case const
      with a s have "match_constant s = Some (v, r)"
        by (simp add: scan_once.simps)
      then show ?thesis by (rule match_constant_shorter)
    qed
  qed
  have array: "parse_array acc s = Some (v, r) \<Longrightarrow> length r < length s"
  proof -
    assume a: "parse_array acc s = Some (v, r)"
    then obtain w rest d ds where w: "scan_once s = Some (w, rest)" "length rest < length s"
      and ws: "skip_ws rest = d # ds"
      and *: "d = CHR '']'' \<and> r = ds \<or> parse_array (acc @ [w]) (skip_ws ds) = Some (v, r)"
      by (subst (asm) parse_array.simps) (auto split: option.splits list.splits if_splits)
    from ws w(2) have l: "length ds < length s"
      using skip_ws_Cons_length [OF ws] by simp
    from * show ?thesis
    proof
      assume "d = CHR '']'' \<and> r = ds"
      with l show ?thesis by simp
    next
      assume b: "parse_array (acc @ [w]) (skip_ws ds) = Some (v, r)"
      have "length (skip_ws ds) < length s"
        using l skip_ws_length [of ds] by simp
      from IH_array [OF this b] this show ?thesis by simp
    qed
  qed
  have object: "parse_object acc' s = Some (v, r) \<Longrightarrow> length r < length s"
  proof -
    assume a: "parse_object acc' s = Some (v, r)"
    then obtain cs key rest r1 w r2 d ds where
      w: "scan_once (skip_ws r1) = Some (w, r2)" "length r2 < length s"
      and ws: "skip_ws r2 = d # ds"
      and *: "d = CHR ''}'' \<and> r = ds \<or>
              parse_object (acc' @ [(key, w)]) (skip_ws ds) = Some (v, r)"
      by (subst (asm) parse_object.simps)
        (auto split: option.splits list.splits if_splits)
    from ws w(2) have l: "length ds < length s"
      using skip_ws_Cons_length [OF ws] by simp
    from * show ?thesis
    proof
      assume "d = CHR ''}'' \<and> r = ds"
      with l show ?thesis by simp
    next
      assume b: "parse_object (acc' @ [(key, w)]) (skip_ws ds) = Some (v, r)"
      have "length (skip_ws ds) < length s"
        using l skip_ws_length [of ds] by simp
      from IH_object [OF this b] this show ?thesis by simp
    qed
  qed
  from once array object show ?case by blast
qed

subsection \<open>Saving an error and reading it back\<close>

lemma json_dumps_list_not_Nil: "json_dumps_list ts \<noteq> []"
  by (simp add: json_dumps_list_def)

lemma loads_tags_stored:
  "loads_tags (cell_of CNone (if ts \<noteq> [] then Some (json_dumps_list ts) else None)) =
     Inr (JArray (map (\<lambda>t. JString (map of_char t)) ts))"
  by (simp add: loads_tags_def cell_of_def json_dumps_list_not_Nil json_loads_dumps_list)

lemma sort_key_append_least:
  "\<forall>x \<in> set xs. f y < f x \<Longrightarrow> sort_key f (xs @ [y]) = y # sort_key f xs"
  by (induction xs) (auto simp: not_le)

lemma order_by_created_at_desc_newest:
  "\<forall>x \<in> set xs. key x < key y \<Longrightarrow>
   order_by_created_at_desc key (xs @ [y]) = y # order_by_created_at_desc key xs"
  by (simp add: order_by_created_at_desc_def sort_key_append_least)

lemma save_error_inserts:
  assumes "d_error_name d = Val n"
  shows "save_error now d db =
     (Inr (),
      db\<lparr>errors := errors db @
           [\<lparr>err_rowid = next_rowid (errors_seq db) (map err_rowid (errors db)),
             error_name = n,
             description = dict_get (d_description d),
             error_type = dict_get (d_error_type d),
             traceback = dict_get (d_traceback d),
             fix_text = dict_get (d_fix d),
             complexity = dict_get (d_complexity d),
             status = dict_get_default ''Open'' (d_status d),
             tags = (if supplied_tags d \<noteq> []
                     then Some (json_dumps_list (supplied_tags d)) else None),
             environment_id = dict_get (d_environment_id d),
             created_at = now, updated_at = now\<rparr>],
         errors_seq := next_rowid (errors_seq db) (map err_rowid (errors db))\<rparr>)"
proof -
  have "(case dict_get (d_tags d) of
           None \<Rightarrow> None
         | Some ts \<Rightarrow> if ts \<noteq> [] then Some (json_dumps_list ts) else None) =
        (if supplied_tags d \<noteq> [] then Some (json_dumps_list (supplied_tags d)) else None)"
    by (simp add: supplied_tags_def split: option.split)
  with assms show ?thesis
    by (simp add: save_error_def insert_error_def dict_item_def Let_def)
qed

lemma joined_environment_errors:
  "environments db' = environments db \<Longrightarrow> joined_environment db' = joined_environment db"
  by (rule ext) (simp add: joined_environment_def split: option.split)

lemma tags_as_supplied_not_mixed:
  assumes "list_all (\<lambda>r. (tags r = None) = (ts = [])) rows"
  shows "\<not> null_beside_text
    (map tags (rows @ [row\<lparr>tags := if ts \<noteq> [] then Some (json_dumps_list ts) else None\<rparr>]))"
  using assms by (cases "ts = []") (auto simp: null_beside_text_def list_ex_iff list_all_iff)

text \<open>
  C2, as amended. When \<open>save_error\<close> is given a name, every record in the table is older
  than the clock and \<open>get_all_errors\<close> returned \<open>df\<close> before, then \<open>save_error\<close>
  succeeds and \<open>get_all_errors\<close> returns the new record followed by \<open>df\<close>; under
  pandas 3 this asks that the records in the table have tags if the new record has, and
  none if it has none, since it raises \<open>TypeError\<close> on NULL tags beside text, as is
  shown further down. The new record has the name, description, error_type, traceback,
  fix, complexity and status that were supplied (\<open>Open\<close> when no status was), its tags
  are the array of the strings supplied, in their order, and its python_version and
  platform are those of the environment whose id was supplied, NULL when there is none.
\<close>

theorem save_error_then_get_all_errors:
  assumes "d_error_name d = Val n"
    and "\<forall>r \<in> set (errors db). created_at r < now"
    and "get_all_errors p db = Inr df"
    and "p \<Longrightarrow> list_all (\<lambda>r. (tags r = None) = (supplied_tags d = [])) (errors db)"
  shows "\<exists>db' new.
           save_error now d db = (Inr (), db') \<and>
           get_all_errors p db' = Inr (new # df) \<and>
           col_error_name new = n \<and>
           col_description new = dict_get (d_description d) \<and>
           col_error_type new = dict_get (d_error_type d) \<and>
           col_traceback new = dict_get (d_traceback d) \<and>
           col_fix new = dict_get (d_fix d) \<and>
           col_complexity new = dict_get (d_complexity d) \<and>
           col_status new = dict_get_default ''Open'' (d_status d) \<and>
           col_tags new = JArray (map (\<lambda>t. JString (map of_char t)) (supplied_tags d)) \<and>
           col_created_at new = now \<and>
           col_python_version new =
             (case dict_get (d_environment_id d) of
                None \<Rightarrow> None
              | Some i \<Rightarrow>
                  map_option env_python_version (find (\<lambda>v. env_rowid v = i) (environments db))) \<and>
           col_platform new =
             (case dict_get (d_environment_id d) of
                None \<Rightarrow> None
              | Some i \<Rightarrow>
                  Option.bind (find (\<lambda>v. env_rowid v = i) (environments db)) env_platform)"
proof -
  let ?stored = "if supplied_tags d \<noteq> [] then Some (json_dumps_list (supplied_tags d)) else None"
  let ?row = "\<lparr>err_rowid = next_rowid (errors_seq db) (map err_rowid (errors db)),
             error_name = n,
             description = dict_get (d_description d),
             error_type = dict_get (d_error_type d),
             traceback = dict_get (d_traceback d),
             fix_text = dict_get (d_fix d),
             complexity = dict_get (d_complexity d),
             status = dict_get_default ''Open'' (d_status d),
             tags = ?stored,
             environment_id = dict_get (d_environment_id d),
             created_at = now, updated_at = now\<rparr>"
  let ?db' = "db\<lparr>errors := errors db @ [?row],
               errors_seq := next_rowid (errors_seq db) (map err_rowid (errors db))\<rparr>"
  have saved: "save_error now d db = (Inr (), ?db')"
    using assms(1) by (rule save_error_inserts)
  have join: "joined_environment ?db' = joined_environment db"
    by (rule joined_environment_errors) simp
  have "order_by_created_at_desc created_at (errors db @ [?row]) =
      ?row # order_by_created_at_desc created_at (errors db)"
    using assms(2) by (intro order_by_created_at_desc_newest) simp
  then have rows: "select_errors_with_environment ?db' =
      (?row, joined_environment db ?row) # select_errors_with_environment db"
    by (simp add: select_errors_with_environment_map join)
  have before: "apply_rows read_plain_with_environment (select_errors_with_environment db) = Inr df"
    using get_all_errors_rowwise [OF get_all_errors_returns [OF assms(3)]] assms(3) by simp
  have "\<not> (p \<and> null_beside_text (map tags (errors db @ [?row])))"
    using assms(4) tags_as_supplied_not_mixed [of "supplied_tags d" "errors db" ?row]
    by auto
  then have after: "get_all_errors p ?db' =
      apply_rows read_plain_with_environment (select_errors_with_environment ?db')"
    by (intro get_all_errors_rowwise) simp
  obtain new where new: "read_plain_with_environment (?row, joined_environment db ?row) = Inr new"
    and fields: "col_error_name new = n"
      "col_description new = dict_get (d_description d)"
      "col_error_type new = dict_get (d_error_type d)"
      "col_traceback new = dict_get (d_traceback d)"
      "col_fix new = dict_get (d_fix d)"
      "col_complexity new = dict_get (d_complexity d)"
      "col_status new = dict_get_default ''Open'' (d_status d)"
      "col_tags new = JArray (map (\<lambda>t. JString (map of_char t)) (supplied_tags d))"
      "col_created_at new = now"
      "col_python_version new = map_option env_python_version (joined_environment db ?row)"
      "col_platform new = Option.bind (joined_environment db ?row) env_platform"
    by (simp add: read_plain_with_environment_def read_error_with_environment_def
        loads_tags_stored)
  from new before have "get_all_errors p ?db' = Inr (new # df)"
    by (simp add: after rows)
  with saved fields show ?thesis
    by (simp add: joined_environment_def split: option.split)
qed

lemma example_db_eq:
  "example_db =
     \<lparr>environments =
        [\<lparr>env_rowid = 1, env_python_version = ''3.11.4'',
          env_platform = Some ''Linux-6.1-x86_64'',
          env_modules = Some (json_dumps_sorted [(''pandas'', ''2.0.1'')]),
          env_created_at = 10\<rparr>],
      environments_seq = 1,
      errors =
        [\<lparr>err_rowid = 1, error_name = ''ValueError: bad token'',
          description = Some ''parsing failed'', error_type = Some ''ValueError'',
          traceback = None, fix_text = None, complexity = Some ''Low'',
          status = Some ''Open'', tags = None, environment_id = None,
          created_at = 30, updated_at = 30\<rparr>],
      errors_seq = 1\<rparr>"
  by (simp add: example_db_def earlier_error_def example_environment_def init_db_def
      empty_db_def get_or_create_environment_def insert_environment_def save_error_def
      insert_error_def next_rowid_def dict_item_def dict_get_def dict_get_default_def)

lemma tagged_db_eq:
  "tagged_db =
     \<lparr>environments =
        [\<lparr>env_rowid = 1, env_python_version = ''3.11.4'',
          env_platform = Some ''Linux-6.1-x86_64'',
          env_modules = Some (json_dumps_sorted [(''pandas'', ''2.0.1'')]),
          env_created_at = 10\<rparr>],
      environments_seq = 1,
      errors =
        [\<lparr>err_rowid = 1, error_name = ''TypeError: bad operand'',
          description = Some ''int plus str'', error_type = Some ''TypeError'',
          traceback = None, fix_text = None, complexity = Some ''Low'',
          status = Some ''Open'', tags = Some (json_dumps_list [''types'']),
          environment_id = None, created_at = 30, updated_at = 30\<rparr>],
      errors_seq = 1\<rparr>"
  by (simp add: tagged_db_def tagged_error_def example_environment_def init_db_def
      empty_db_def get_or_create_environment_def insert_environment_def save_error_def
      insert_error_def next_rowid_def dict_item_def dict_get_def dict_get_default_def)

lemmas listing_defs =
  get_all_errors_def get_errors_by_environment_def select_errors_with_environment_def
  select_errors_of_environment_def order_by_created_at_desc_def joined_environment_def
  read_error_with_environment_def read_error_def read_tags_column_def cell_of_def
  loads_tags_def json_dumps_list_not_Nil json_loads_dumps_list Let_def

lemmas save_error_defs =
  save_error_def insert_error_def next_rowid_def dict_item_def dict_get_def
  dict_get_default_def

lemma get_all_errors_example_db:
  "get_all_errors p example_db =
     Inr [\<lparr>col_id = 1, col_error_name = ''ValueError: bad token'',
           col_description = Some ''parsing failed'', col_error_type = Some ''ValueError'',
           col_traceback = None, col_fix = None, col_complexity = Some ''Low'',
           col_status = Some ''Open'', col_tags = JArray [],
           col_created_at = 30, col_updated_at = 30,
           col_python_version = None, col_platform = None\<rparr>]"
  by (simp add: example_db_eq listing_defs)

lemma get_all_errors_tagged_db:
  "get_all_errors p tagged_db =
     Inr [\<lparr>col_id = 1, col_error_name = ''TypeError: bad operand'',
           col_description = Some ''int plus str'', col_error_type = Some ''TypeError'',
           col_traceback = None, col_fix = None, col_complexity = Some ''Low'',
           col_status = Some ''Open'', col_tags = JArray [JString (map of_char ''types'')],
           col_created_at = 30, col_updated_at = 30,
           col_python_version = None, col_platform = None\<rparr>]"
  by (simp add: tagged_db_eq listing_defs)

theorem save_error_then_get_all_errors_witness:
  "d_error_name example_error = Val ''KeyError: x'' \<and>
   list_all (\<lambda>r. created_at r < 40) (errors tagged_db) \<and>
   list_all (\<lambda>r. (tags r = None) = (supplied_tags example_error = [])) (errors tagged_db) \<and>
   (\<exists>db' new old.
      get_all_errors True tagged_db = Inr [old] \<and>
      save_error 40 example_error tagged_db = (Inr (), db') \<and>
      get_all_errors True db' = Inr [new, old] \<and>
      col_error_name new = ''KeyError: x'' \<and>
      col_status new = Some ''Open'' \<and>
      col_tags new = JArray [JString (map of_char ''dict''), JString (map of_char ''lookup'')] \<and>
      col_python_version new = Some ''3.11.4'')"
proof -
  have name: "d_error_name example_error = Val ''KeyError: x''"
    by (simp add: example_error_def)
  have older: "\<forall>r \<in> set (errors tagged_db). created_at r < 40"
    by (simp add: tagged_db_eq)
  have tagged: "list_all (\<lambda>r. (tags r = None) = (supplied_tags example_error = []))
      (errors tagged_db)"
    by (simp add: tagged_db_eq supplied_tags_def example_error_def dict_get_def)
  let ?old = "\<lparr>col_id = 1, col_error_name = ''TypeError: bad operand'',
           col_description = Some ''int plus str'', col_error_type = Some ''TypeError'',
           col_traceback = None, col_fix = None, col_complexity = Some ''Low'',
           col_status = Some ''Open'', col_tags = JArray [JString (map of_char ''types'')],
           col_created_at = 30, col_updated_at = 30,
           col_python_version = None, col_platform = None\<rparr>"
  from save_error_then_get_all_errors
    [OF name older get_all_errors_tagged_db [of True] tagged]
  obtain db' new where saved: "save_error 40 example_error tagged_db = (Inr (), db')"
    and listed: "get_all_errors True db' = Inr [new, ?old]"
    and fields: "col_error_name new = ''KeyError: x''"
      "col_status new = dict_get_default ''Open'' (d_status example_error)"
      "col_tags new = JArray (map (\<lambda>t. JString (map of_char t)) (supplied_tags example_error))"
      "col_python_version new =
         (case dict_get (d_environment_id example_error) of
            None \<Rightarrow> None
          | Some i \<Rightarrow>
              map_option env_python_version
                (find (\<lambda>v. env_rowid v = i) (environments tagged_db)))"
    by blast
  from fields have "col_status new = Some ''Open''"
    and "col_tags new = JArray [JString (map of_char ''dict''), JString (map of_char ''lookup'')]"
    and "col_python_version new = Some ''3.11.4''"
    by (simp_all add: example_error_def tagged_db_eq dict_get_def dict_get_default_def
        supplied_tags_def)
  with saved listed fields(1) get_all_errors_tagged_db [of True]
  have "\<exists>db' new old.
      get_all_errors True tagged_db = Inr [old] \<and>
      save_error 40 example_error tagged_db = (Inr (), db') \<and>
      get_all_errors True db' = Inr [new, old] \<and>
      col_error_name new = ''KeyError: x'' \<and>
      col_status new = Some ''Open'' \<and>
      col_tags new = JArray [JString (map of_char ''dict''), JString (map of_char ''lookup'')] \<and>
      col_python_version new = Some ''3.11.4''"
    by blast
  moreover have "list_all (\<lambda>r. created_at r < 40) (errors tagged_db)"
    using older by (simp add: list_all_iff)
  ultimately show ?thesis
    using name tagged by (intro conjI)
qed

text \<open>
  The claim C2 as it is worded asks only that no other record has a later timestamp.
  Saved in the same second as the record that is there, the new record comes second,
  whatever the version of pandas: the sort keeps records with equal timestamps in the
  order of their rowids.
\<close>

theorem newest_is_not_first_on_equal_timestamps:
  "map created_at (errors tagged_db) = [30] \<and>
   map_sum id (map col_error_name)
     (get_all_errors True (snd (save_error 30 example_error tagged_db))) =
   Inr [''TypeError: bad operand'', ''KeyError: x''] \<and>
   map_sum id (map col_error_name)
     (get_all_errors False (snd (save_error 30 example_error tagged_db))) =
   Inr [''TypeError: bad operand'', ''KeyError: x'']"
  by (simp add: tagged_db_eq example_error_def save_error_defs listing_defs)

subsection \<open>Whether the listings return\<close>

lemma get_or_create_errors: "errors (snd (get_or_create_environment now e db)) = errors db"
  by (simp add: get_or_create_environment_def insert_environment_def Let_def
      split: option.split)

lemma save_error_errors:
  "errors (snd (save_error now d db)) = errors db \<or>
   (\<exists>row ts. errors (snd (save_error now d db)) = errors db @ [row] \<and>
      tags row = (if ts \<noteq> [] then Some (json_dumps_list ts) else None))"
proof (cases "d_error_name d")
  case (Val n)
  show ?thesis
    by (simp add: save_error_inserts [OF Val]) metis
qed (simp_all add: save_error_def insert_error_def dict_item_def)

lemma reachable_tags:
  "reachable db \<Longrightarrow> \<forall>r \<in> set (errors db). \<exists>t. loads_tags (cell_of CNone (tags r)) = Inr t"
proof (induction rule: reachable.induct)
  case reachable_init
  show ?case by (simp add: init_db_def empty_db_def)
next
  case (reachable_environment db now env_info)
  then show ?case by (simp add: get_or_create_errors)
next
  case (reachable_error db now error_data)
  from save_error_errors [of now error_data db] show ?case
  proof
    assume "errors (snd (save_error now error_data db)) = errors db"
    with reachable_error.IH show ?thesis by simp
  next
    assume "\<exists>row ts. errors (snd (save_error now error_data db)) = errors db @ [row] \<and>
      tags row = (if ts \<noteq> [] then Some (json_dumps_list ts) else None)"
    then obtain row ts where "errors (snd (save_error now error_data db)) = errors db @ [row]"
      and "tags row = (if ts \<noteq> [] then Some (json_dumps_list ts) else None)"
      by blast
    with reachable_error.IH loads_tags_stored [of ts] show ?thesis by auto
  qed
qed

lemma apply_rows_total:
  "\<forall>x \<in> set xs. \<exists>y. f x = Inr y \<Longrightarrow> \<exists>ys. apply_rows f xs = Inr ys"
  by (induction xs) auto

lemma read_plain_total:
  "loads_tags (cell_of CNone (tags r)) = Inr t \<Longrightarrow> \<exists>c. read_plain r = Inr c \<and> col_tags c = t"
  by (simp add: read_plain_def read_error_def)

lemma read_plain_with_environment_total:
  "loads_tags (cell_of CNone (tags r)) = Inr t \<Longrightarrow>
   \<exists>c. read_plain_with_environment (r, v) = Inr c \<and> col_tags c = t"
  by (simp add: read_plain_with_environment_def read_error_with_environment_def)

lemma listing_total:
  assumes "\<forall>r \<in> set (errors db). \<exists>t. loads_tags (cell_of CNone (tags r)) = Inr t"
  shows "\<not> (p \<and> null_beside_text (map tags (errors db))) \<Longrightarrow>
           \<exists>df. get_all_errors p db = Inr df"
    and "\<not> (p \<and> null_beside_text
            (map tags (filter (\<lambda>r. environment_id r = Some e) (errors db)))) \<Longrightarrow>
         \<exists>rows. get_errors_by_environment p e db = Inr rows"
proof -
  assume plain: "\<not> (p \<and> null_beside_text (map tags (errors db)))"
  have "\<forall>x \<in> set (select_errors_with_environment db).
      \<exists>y. read_plain_with_environment x = Inr y"
    using assms read_plain_with_environment_total
    by (fastforce simp: select_errors_with_environment_def)
  then show "\<exists>df. get_all_errors p db = Inr df"
    unfolding get_all_errors_rowwise [OF plain] by (rule apply_rows_total)
next
  assume plain: "\<not> (p \<and> null_beside_text
      (map tags (filter (\<lambda>r. environment_id r = Some e) (errors db))))"
  have "\<forall>x \<in> set (select_errors_of_environment e db). \<exists>y. read_plain x = Inr y"
    using assms read_plain_total
    by (fastforce simp: select_errors_of_environment_def)
  then show "\<exists>rows. get_errors_by_environment p e db = Inr rows"
    unfolding get_errors_by_environment_rowwise [OF plain] by (rule apply_rows_total)
qed

lemma loads_tags_empty:
  "tags r = None \<or> tags r = Some [] \<Longrightarrow> loads_tags (cell_of CNone (tags r)) = Inr (JArray [])"
  by (auto simp: loads_tags_def cell_of_def)

lemma no_tags_listed:
  assumes "list_all (\<lambda>r. tags r = None \<or> tags r = Some []) (errors db)"
    and "\<not> (p \<and> null_beside_text (map tags (errors db)))"
  shows "\<exists>df. get_all_errors p db = Inr df \<and> list_all (\<lambda>c. col_tags c = JArray []) df"
proof -
  from assms(1) have empty: "\<forall>r \<in> set (errors db). loads_tags (cell_of CNone (tags r)) = Inr (JArray [])"
    using loads_tags_empty by (auto simp: list_all_iff)
  then obtain df where df: "get_all_errors p db = Inr df"
    using listing_total(1) [OF _ assms(2)] by blast
  then have "apply_rows read_plain_with_environment (select_errors_with_environment db) = Inr df"
    by (simp add: get_all_errors_rowwise [OF assms(2)])
  then have "map col_tags df = map (\<lambda>r. JArray []) (select_errors_with_environment db)"
  proof (rule apply_rows_columns)
    fix x y
    assume "x \<in> set (select_errors_with_environment db)"
      and read: "read_plain_with_environment x = Inr y"
    then have "fst x \<in> set (errors db)"
      by (auto simp: select_errors_with_environment_def)
    with empty have "loads_tags (cell_of CNone (tags (fst x))) = Inr (JArray [])"
      by simp
    with read show "col_tags y = JArray []"
      by (auto simp: read_plain_with_environment_def read_error_with_environment_def)
  qed
  then have "\<forall>t \<in> set (map col_tags df). t = JArray []"
    by simp
  then have "list_all (\<lambda>c. col_tags c = JArray []) df"
    by (simp add: list_all_iff)
  with df show ?thesis by blast
qed

text \<open>
  Where no \<open>NaN\<close> is read, the listings return in every state the program reaches:
  the tags \<open>save_error\<close> stores are NULL or the JSON text of the list. That is every
  reachable state under pandas before 3. And where all tags are NULL or the empty text,
  in whatever database, they are read as the empty list.
\<close>

lemma listing_returns_without_NaN:
  "(reachable db \<longrightarrow> \<not> (p \<and> null_beside_text (map tags (errors db))) \<longrightarrow>
      (\<exists>df. get_all_errors p db = Inr df)) \<and>
   (reachable db \<longrightarrow>
    \<not> (p \<and> null_beside_text
           (map tags (filter (\<lambda>r. environment_id r = Some e) (errors db)))) \<longrightarrow>
      (\<exists>rows. get_errors_by_environment p e db = Inr rows)) \<and>
   (list_all (\<lambda>r. tags r = None \<or> tags r = Some []) (errors db) \<longrightarrow>
    \<not> (p \<and> null_beside_text (map tags (errors db))) \<longrightarrow>
      (\<exists>df. get_all_errors p db = Inr df \<and> list_all (\<lambda>c. col_tags c = JArray []) df))"
proof (intro conjI impI)
  assume "reachable db" and "\<not> (p \<and> null_beside_text (map tags (errors db)))"
  then show "\<exists>df. get_all_errors p db = Inr df"
    using listing_total(1) reachable_tags by blast
next
  assume "reachable db"
    and "\<not> (p \<and> null_beside_text
           (map tags (filter (\<lambda>r. environment_id r = Some e) (errors db))))"
  then show "\<exists>rows. get_errors_by_environment p e db = Inr rows"
    using listing_total(2) reachable_tags by blast
next
  assume "list_all (\<lambda>r. tags r = None \<or> tags r = Some []) (errors db)"
    and "\<not> (p \<and> null_beside_text (map tags (errors db)))"
  then show "\<exists>df. get_all_errors p db = Inr df \<and> list_all (\<lambda>c. col_tags c = JArray []) df"
    by (rule no_tags_listed)
qed

subsection \<open>NULL tags beside text, under pandas 3\<close>

lemma apply_rows_raises:
  assumes "\<forall>x \<in> set xs. f x = Inl e \<or> (\<exists>y. f x = Inr y)" and "\<exists>x \<in> set xs. f x = Inl e"
  shows "apply_rows f xs = Inl e"
  using assms
proof (induction xs)
  case Nil
  then show ?case by simp
next
  case (Cons x xs)
  show ?case
  proof (cases "f x")
    case (Inl e')
    with Cons.prems(1) show ?thesis by auto
  next
    case (Inr y)
    with Cons.prems have "apply_rows f xs = Inl e"
      by (intro Cons.IH) auto
    with Inr show ?thesis by simp
  qed
qed

lemma read_tags_column_text:
  assumes "null_beside_text column"
  shows "read_tags_column True column = map (cell_of CNaN) column"
  using assms by (simp add: read_tags_column_def null_beside_text_def)

lemma NaN_or_stored:
  assumes "\<exists>t. loads_tags (cell_of CNone (tags r)) = Inr t"
  shows "loads_tags (cell_of CNaN (tags r)) = Inl TypeError \<or>
    (\<exists>t. loads_tags (cell_of CNaN (tags r)) = Inr t)"
  using assms by (cases "tags r") (simp_all add: cell_of_def loads_tags_def)

lemma get_all_errors_TypeError:
  assumes "\<forall>r \<in> set (errors db). \<exists>t. loads_tags (cell_of CNone (tags r)) = Inr t"
    and "null_beside_text (map tags (errors db))"
  shows "get_all_errors True db = Inl TypeError"
proof -
  let ?rows = "select_errors_with_environment db"
  let ?column = "map (\<lambda>r. tags (fst r)) ?rows"
  let ?read = "\<lambda>r. read_error_with_environment (r, cell_of CNaN (tags (fst r)))"
  have "null_beside_text ?column = null_beside_text (map tags (errors db))"
    using null_beside_text_set [of "order_by_created_at_desc created_at (errors db)" "errors db" tags]
    by (simp add: select_errors_with_environment_map o_def)
  with assms(2) have column: "null_beside_text ?column"
    by simp
  then have nonempty: "?rows \<noteq> []"
    by (auto simp: null_beside_text_def)
  have "zip ?rows (read_tags_column True ?column) = map (\<lambda>r. (r, cell_of CNaN (tags (fst r)))) ?rows"
    using zip_map_same [of ?rows "\<lambda>r. cell_of CNaN (tags (fst r))"]
    by (simp add: read_tags_column_text [OF column] o_def)
  then have listing: "get_all_errors True db = apply_rows ?read ?rows"
    using nonempty by (simp add: get_all_errors_def Let_def apply_rows_map)
  have rows: "fst r \<in> set (errors db)" if "r \<in> set ?rows" for r
    using that by (auto simp: select_errors_with_environment_def)
  have "\<forall>r \<in> set ?rows. ?read r = Inl TypeError \<or> (\<exists>y. ?read r = Inr y)"
  proof
    fix r
    assume "r \<in> set ?rows"
    with assms(1) rows have "\<exists>t. loads_tags (cell_of CNone (tags (fst r))) = Inr t"
      by blast
    from NaN_or_stored [OF this] show "?read r = Inl TypeError \<or> (\<exists>y. ?read r = Inr y)"
      by (auto simp: read_error_with_environment_def)
  qed
  moreover from column obtain r where "r \<in> set ?rows" and "tags (fst r) = None"
    by (auto simp: null_beside_text_def list_ex_iff)
  then have "\<exists>r \<in> set ?rows. ?read r = Inl TypeError"
    by (intro bexI [of _ r]) (simp_all add: read_error_with_environment_def cell_of_def loads_tags_def)
  ultimately show ?thesis
    unfolding listing by (rule apply_rows_raises)
qed

lemma reachable_errors_update:
  assumes "\<forall>r \<in> set (errors db). \<exists>t. loads_tags (cell_of CNone (tags r)) = Inr t"
  shows "\<forall>r \<in> set (errors (db\<lparr>errors := filter P (errors db)\<rparr>)).
    \<exists>t. loads_tags (cell_of CNone (tags r)) = Inr t"
  using assms by simp

text \<open>
  C4. The listings are not total, and not in the states the program itself reaches:
  under pandas 3, when the records selected have tags in some rows and NULL in others,
  NULL is read as \<open>NaN\<close>, which the test \<open>if x\<close> lets through to \<open>json.loads\<close>, and
  \<open>get_all_errors\<close> and \<open>get_errors_by_environment\<close> raise \<open>TypeError\<close>. The rows
  without tags are not read as "no tags", and no row is returned.
\<close>

theorem null_tags_beside_text_raise_TypeError:
  "(reachable db \<longrightarrow> null_beside_text (map tags (errors db)) \<longrightarrow>
      get_all_errors True db = Inl TypeError) \<and>
   (reachable db \<longrightarrow>
    null_beside_text (map tags (filter (\<lambda>r. environment_id r = Some e) (errors db))) \<longrightarrow>
      get_errors_by_environment True e db = Inl TypeError)"
proof (intro conjI impI)
  assume "reachable db" and "null_beside_text (map tags (errors db))"
  then show "get_all_errors True db = Inl TypeError"
    using get_all_errors_TypeError reachable_tags by blast
next
  let ?db = "db\<lparr>errors := filter (\<lambda>r. environment_id r = Some e) (errors db)\<rparr>"
  assume "reachable db"
    and "null_beside_text (map tags (filter (\<lambda>r. environment_id r = Some e) (errors db)))"
  then have "get_all_errors True ?db = Inl TypeError"
    using reachable_errors_update [OF reachable_tags] by (intro get_all_errors_TypeError) simp_all
  then show "get_errors_by_environment True e db = Inl TypeError"
    using get_errors_by_environment_of_subset [of True e db] by simp
qed

lemma mixed_db_eq:
  "mixed_db =
     \<lparr>environments =
        [\<lparr>env_rowid = 1, env_python_version = ''3.11.4'',
          env_platform = Some ''Linux-6.1-x86_64'',
          env_modules = Some (json_dumps_sorted [(''pandas'', ''2.0.1'')]),
          env_created_at = 10\<rparr>],
      environments_seq = 1,
      errors =
        [\<lparr>err_rowid = 1, error_name = ''KeyError: x'',
          description = Some ''missing key in dict'', error_type = None,
          traceback = None, fix_text = None, complexity = Some ''Medium'',
          status = Some ''Open'', tags = Some (json_dumps_list [''dict'', ''lookup'']),
          environment_id = Some 1, created_at = 40, updated_at = 40\<rparr>,
         \<lparr>err_rowid = 2, error_name = ''KeyError: y'',
          description = Some ''missing key again'', error_type = None,
          traceback = None, fix_text = None, complexity = Some ''Low'',
          status = Some ''Open'', tags = None,
          environment_id = Some 1, created_at = 50, updated_at = 50\<rparr>],
      errors_seq = 2\<rparr>"
  by (simp add: mixed_db_def untagged_error_def example_error_def example_environment_def
      init_db_def empty_db_def get_or_create_environment_def insert_environment_def
      save_error_defs)

theorem null_tags_beside_text_raise_TypeError_witness:
  "reachable mixed_db \<and>
   map (\<lambda>r. tags r = None) (errors mixed_db) = [False, True] \<and>
   map environment_id (errors mixed_db) = [Some 1, Some 1] \<and>
   get_all_errors True mixed_db = Inl TypeError \<and>
   get_errors_by_environment True 1 mixed_db = Inl TypeError \<and>
   map_sum id (map col_tags) (get_all_errors False mixed_db) =
     Inr [JArray [], JArray [JString (map of_char ''dict''), JString (map of_char ''lookup'')]] \<and>
   map_sum id (map col_tags) (get_errors_by_environment False 1 mixed_db) =
     Inr [JArray [], JArray [JString (map of_char ''dict''), JString (map of_char ''lookup'')]]"
proof -
  have reach: "reachable mixed_db"
    unfolding mixed_db_def by (intro reachable.intros)
  have rows: "map (\<lambda>r. tags r = None) (errors mixed_db) = [False, True]"
    "map environment_id (errors mixed_db) = [Some 1, Some 1]"
    by (simp_all add: mixed_db_eq)
  have mixed: "null_beside_text (map tags (errors mixed_db))"
    "null_beside_text (map tags (filter (\<lambda>r. environment_id r = Some 1) (errors mixed_db)))"
    by (simp_all add: mixed_db_eq null_beside_text_def)
  from null_tags_beside_text_raise_TypeError [of mixed_db 1] reach mixed
  have raises: "get_all_errors True mixed_db = Inl TypeError"
    "get_errors_by_environment True 1 mixed_db = Inl TypeError"
    by blast+
  have before: "map_sum id (map col_tags) (get_all_errors False mixed_db) =
     Inr [JArray [], JArray [JString (map of_char ''dict''), JString (map of_char ''lookup'')]]"
    "map_sum id (map col_tags) (get_errors_by_environment False 1 mixed_db) =
     Inr [JArray [], JArray [JString (map of_char ''dict''), JString (map of_char ''lookup'')]]"
    by (simp_all add: mixed_db_eq listing_defs)
  from reach rows raises before show ?thesis
    by (intro conjI)
qed

text \<open>
  Nor are tags that are not JSON read as "no tags". On a database with such a row both
  functions raise \<open>JSONDecodeError\<close>, whatever the version of pandas: \<open>json.loads\<close> is
  applied to every row with no handler around it.
\<close>

lemma json_loads_oops: "json_loads ''oops'' = Inl JSONDecodeError"
  by (simp add: json_loads_def skip_ws_def is_whitespace_def scan_once.simps
      match_constant_def match_number_def match_int_def is_digit_def)

theorem malformed_tags_abort_listing:
  "get_all_errors True malformed_db = Inl JSONDecodeError \<and>
   get_all_errors False malformed_db = Inl JSONDecodeError \<and>
   get_errors_by_environment True 1 malformed_db = Inl JSONDecodeError \<and>
   get_errors_by_environment False 1 malformed_db = Inl JSONDecodeError"
  by (simp add: malformed_db_def get_all_errors_def get_errors_by_environment_def
      select_errors_with_environment_def select_errors_of_environment_def
      order_by_created_at_desc_def joined_environment_def read_error_with_environment_def
      read_error_def read_tags_column_def cell_of_def loads_tags_def json_loads_oops)

subsection \<open>Witnesses for the listings\<close>



subsection \<open>The environment id is not among the columns\<close>

lemma apply_rows_zip_map:
  assumes "\<And>x c. f (g x, c) = f' (h x, c)"
  shows "apply_rows f (zip (map g xs) cs) = apply_rows f' (zip (map h xs) cs)"
proof (induction xs arbitrary: cs)
  case Nil
  show ?case by simp
next
  case (Cons x xs)
  show ?case
  proof (cases cs)
    case Nil
    then show ?thesis by simp
  next
    case (Cons c cs')
    with Cons.IH [of cs'] assms [of x c] show ?thesis by (simp split: sum.split)
  qed
qed

lemma get_all_errors_of_visible:
  "\<exists>F. \<forall>db. get_all_errors p db = F (map (without_environment_id db) (errors db))"
proof -
  define read_visible ::
    "(error_row \<times> string option \<times> string option) \<times> cell \<Rightarrow> py_error + error_env_columns"
    where "read_visible wc =
      (case loads_tags (snd wc) of
         Inl x \<Rightarrow> Inl x
       | Inr t \<Rightarrow>
           Inr \<lparr>col_id = err_rowid (fst (fst wc)), col_error_name = error_name (fst (fst wc)),
                col_description = description (fst (fst wc)),
                col_error_type = error_type (fst (fst wc)),
                col_traceback = traceback (fst (fst wc)), col_fix = fix_text (fst (fst wc)),
                col_complexity = complexity (fst (fst wc)), col_status = status (fst (fst wc)),
                col_tags = t,
                col_created_at = created_at (fst (fst wc)),
                col_updated_at = updated_at (fst (fst wc)),
                col_python_version = fst (snd (fst wc)),
                col_platform = snd (snd (fst wc))\<rparr>)" for wc
  define list_visible ::
    "(error_row \<times> string option \<times> string option) list \<Rightarrow> py_error + error_env_columns list"
    where "list_visible ws =
      (let rows = order_by_created_at_desc (\<lambda>w. created_at (fst w)) ws;
           cells = read_tags_column p (map (\<lambda>w. tags (fst w)) rows)
       in if rows \<noteq> [] then apply_rows read_visible (zip rows cells) else Inr [])" for ws
  have read: "read_error_with_environment ((e, joined_environment db e), c) =
      read_visible (without_environment_id db e, c)" for e db c
    by (simp add: read_error_with_environment_def read_visible_def without_environment_id_def
        split: sum.split)
  have sorted: "order_by_created_at_desc (\<lambda>w. created_at (fst w))
          (map (without_environment_id db) (errors db)) =
        map (without_environment_id db) (order_by_created_at_desc created_at (errors db))" for db
    by (simp add: order_by_created_at_desc_def sort_key_map without_environment_id_def)
  have "get_all_errors p db = list_visible (map (without_environment_id db) (errors db))" for db
  proof -
    let ?es = "order_by_created_at_desc created_at (errors db)"
    have column: "tags (fst (without_environment_id db e)) = tags e" for e
      by (simp add: without_environment_id_def)
    have "apply_rows read_error_with_environment
        (zip (map (\<lambda>e. (e, joined_environment db e)) ?es) cs) =
      apply_rows read_visible (zip (map (without_environment_id db) ?es) cs)" for cs
      by (rule apply_rows_zip_map) (rule read)
    then show ?thesis
      by (simp add: get_all_errors_def list_visible_def Let_def sorted column
          select_errors_with_environment_map o_def)
  qed
  then show ?thesis
    by (intro exI [of _ list_visible]) simp
qed

text \<open>
  C10. The rows of \<open>get_all_errors\<close> carry the python_version and the platform of the
  joined environment, and no environment id: \<open>error_env_columns\<close> has no such field,
  and two databases whose records differ in nothing but their environment ids, with the
  same joined python_version and platform, give the same result.
\<close>

theorem environment_id_is_not_returned:
  "(get_all_errors p db = Inr df \<longrightarrow>
      map (\<lambda>c. (col_python_version c, col_platform c)) df =
      map (\<lambda>ev. (map_option env_python_version (snd ev), Option.bind (snd ev) env_platform))
        (select_errors_with_environment db)) \<and>
   (map (without_environment_id db1) (errors db1) =
    map (without_environment_id db2) (errors db2) \<longrightarrow>
      get_all_errors p db1 = get_all_errors p db2)"
proof (intro conjI impI)
  assume all: "get_all_errors p db = Inr df"
  then have "apply_rows read_plain_with_environment (select_errors_with_environment db) = Inr df"
    using get_all_errors_rowwise [OF get_all_errors_returns [OF all]] by simp
  then show "map (\<lambda>c. (col_python_version c, col_platform c)) df =
      map (\<lambda>ev. (map_option env_python_version (snd ev), Option.bind (snd ev) env_platform))
        (select_errors_with_environment db)"
    by (rule apply_rows_columns)
      (auto simp: read_plain_with_environment_def read_error_with_environment_def
        split: sum.splits)
next
  assume "map (without_environment_id db1) (errors db1) =
    map (without_environment_id db2) (errors db2)"
  with get_all_errors_of_visible [of p] show "get_all_errors p db1 = get_all_errors p db2"
    by metis
qed

theorem environment_id_is_not_returned_witness:
  "map environment_id (errors example_db) = [None] \<and>
   map environment_id (errors dangling_db) = [Some 7] \<and>
   map (without_environment_id example_db) (errors example_db) =
     map (without_environment_id dangling_db) (errors dangling_db) \<and>
   get_all_errors True example_db = get_all_errors True dangling_db \<and>
   get_all_errors False example_db = get_all_errors False dangling_db \<and>
   map_sum id (map (\<lambda>c. (col_python_version c, col_platform c)))
     (get_all_errors True example_db) = Inr [(None, None)]"
proof -
  have same: "map (without_environment_id example_db) (errors example_db) =
      map (without_environment_id dangling_db) (errors dangling_db)"
    by (simp add: dangling_db_def example_db_eq without_environment_id_def
        joined_environment_def)
  with environment_id_is_not_returned [of _ example_db _ example_db dangling_db]
  have equal: "get_all_errors p example_db = get_all_errors p dangling_db" for p
    by blast
  have ids: "map environment_id (errors example_db) = [None]"
    "map environment_id (errors dangling_db) = [Some 7]"
    by (simp_all add: dangling_db_def example_db_eq)
  have columns: "map_sum id (map (\<lambda>c. (col_python_version c, col_platform c)))
      (get_all_errors True example_db) = Inr [(None, None)]"
    by (simp add: get_all_errors_example_db)
  from same equal [of True] equal [of False] ids columns show ?thesis
    by (intro conjI)
qed

subsection \<open>Required fields\<close>

text \<open>
  C3, as amended. The form is where empty fields are refused: submitted with an empty
  name or an empty description, it reports the required fields and writes nothing.
  \<open>save_error\<close> itself raises, and writes nothing, when the name is missing
  (\<open>KeyError\<close>) or \<open>None\<close> (the \<open>NOT NULL\<close> constraint); given any name, it inserts
  one row.
\<close>

theorem required_fields:
  "(f_error_name f = [] \<or> f_description f = [] \<longrightarrow>
      submit_error_form now env_id f db = (Inr Please_fill_in_required_fields, db)) \<and>
   (d_error_name d = Missing \<longrightarrow> save_error now d db = (Inl KeyError, db)) \<and>
   (d_error_name d = PyNone \<longrightarrow> save_error now d db = (Inl IntegrityError, db)) \<and>
   (d_error_name d = Val n \<longrightarrow>
      fst (save_error now d db) = Inr () \<and>
      length (errors (snd (save_error now d db))) = length (errors db) + 1)"
proof (intro conjI impI)
  assume "f_error_name f = [] \<or> f_description f = []"
  then show "submit_error_form now env_id f db = (Inr Please_fill_in_required_fields, db)"
    by (auto simp: submit_error_form_def)
next
  assume "d_error_name d = Missing"
  then show "save_error now d db = (Inl KeyError, db)"
    by (simp add: save_error_def dict_item_def)
next
  assume "d_error_name d = PyNone"
  then show "save_error now d db = (Inl IntegrityError, db)"
    by (simp add: save_error_def dict_item_def insert_error_def)
next
  assume "d_error_name d = Val n"
  then show "fst (save_error now d db) = Inr ()"
    and "length (errors (snd (save_error now d db))) = length (errors db) + 1"
    by (simp_all add: save_error_inserts)
qed

theorem required_fields_witness:
  "(f_error_name empty_form = [] \<or> f_description empty_form = []) \<and>
   submit_error_form 50 1 empty_form example_db =
     (Inr Please_fill_in_required_fields, example_db) \<and>
   d_error_name (empty_fields\<lparr>d_error_name := Missing\<rparr>) = Missing \<and>
   save_error 50 (empty_fields\<lparr>d_error_name := Missing\<rparr>) example_db =
     (Inl KeyError, example_db) \<and>
   d_error_name (empty_fields\<lparr>d_error_name := PyNone\<rparr>) = PyNone \<and>
   save_error 50 (empty_fields\<lparr>d_error_name := PyNone\<rparr>) example_db =
     (Inl IntegrityError, example_db) \<and>
   d_error_name example_error = Val ''KeyError: x'' \<and>
   length (errors (snd (save_error 50 example_error example_db))) =
     length (errors example_db) + 1"
  using required_fields [of empty_form 50 1 example_db "empty_fields\<lparr>d_error_name := Missing\<rparr>"]
    required_fields [of empty_form 50 1 example_db "empty_fields\<lparr>d_error_name := PyNone\<rparr>"]
    required_fields [of empty_form 50 1 example_db example_error "''KeyError: x''"]
  by (simp add: empty_form_def empty_fields_def example_error_def)

text \<open>
  The claim C3 as it is worded has \<open>save_error\<close> refuse an empty name or description.
  It does not: with both empty, it inserts the row.
\<close>

theorem save_error_accepts_empty_fields:
  "save_error 50 empty_fields empty_db =
     (Inr (),
      \<lparr>environments = [], environments_seq = 0,
       errors =
         [\<lparr>err_rowid = 1, error_name = [], description = Some [], error_type = None,
           traceback = None, fix_text = None, complexity = None, status = Some ''Open'',
           tags = None, environment_id = None, created_at = 50, updated_at = 50\<rparr>],
       errors_seq = 1\<rparr>)"
  by (simp add: empty_fields_def empty_db_def save_error_def insert_error_def next_rowid_def
      dict_item_def dict_get_def dict_get_default_def)

subsection \<open>The encoding of the module set\<close>

lemma distinct_fold_update:
  "distinct (map fst d) \<Longrightarrow>
   distinct (map fst (fold (\<lambda>kv d. AList.update (fst kv) (snd kv) d) ws d))"
  by (induction ws arbitrary: d) (simp_all add: distinct_update)

lemma distinct_dict_of: "distinct (map fst (dict_of ws))"
  by (simp add: dict_of_def distinct_fold_update)

lemma sort_key_canonical:
  assumes "distinct (map fst d1)" and "distinct (map fst d2)" and "map_of d1 = map_of d2"
  shows "sort_key fst d1 = sort_key fst d2"
proof (rule map_sorted_distinct_set_unique [where f = fst])
  from assms have same: "set d1 = set d2"
    by (simp add: map_of_inject_set)
  from assms(1) have "inj_on fst (set d1)"
    by (simp add: distinct_map)
  with same show "inj_on fst (set (sort_key fst d1) \<union> set (sort_key fst d2))"
    by simp
  show "sorted (map fst (sort_key fst d1))" "sorted (map fst (sort_key fst d2))"
    by (rule sorted_sort_key)+
  from assms(1,2) show "distinct (map fst (sort_key fst d1))" "distinct (map fst (sort_key fst d2))"
    by (simp_all add: distinct_map)
  from same show "set (sort_key fst d1) = set (sort_key fst d2)"
    by simp
qed

lemma json_dumps_sorted_canonical:
  "map_of (dict_of ws1) = map_of (dict_of ws2) \<Longrightarrow>
   json_dumps_sorted (dict_of ws1) = json_dumps_sorted (dict_of ws2)"
  using sort_key_canonical [OF distinct_dict_of distinct_dict_of, of ws1 ws2]
  by (simp add: json_dumps_sorted_def)

lemma fold_update_distinct:
  "distinct (map fst (d @ ws)) \<Longrightarrow>
   fold (\<lambda>kv d. AList.update (fst kv) (snd kv) d) ws d = d @ ws"
proof (induction ws arbitrary: d)
  case Nil
  show ?case by simp
next
  case (Cons w ws)
  have new: "fst w \<notin> fst ` set d \<Longrightarrow> AList.update (fst w) (snd w) d = d @ [w]" for d
    by (induction d) auto
  from Cons.prems have "fst w \<notin> fst ` set d"
    by auto
  with Cons.IH [of "d @ [w]"] Cons.prems new show ?case
    by simp
qed

text \<open>
  An enumeration that names no package twice gives the same dictionary in whatever order
  it runs.
\<close>

lemma dict_of_reordered:
  assumes "mset ws1 = mset ws2" and "distinct (map fst ws1)"
  shows "map_of (dict_of ws1) = map_of (dict_of ws2)"
proof -
  from assms(1) have "mset (map fst ws1) = mset (map fst ws2)"
    by (metis mset_map)
  with assms(2) have d2: "distinct (map fst ws2)"
    by (metis mset_eq_imp_distinct_iff)
  from assms(1) have "set ws1 = set ws2"
    by (rule mset_eq_setD)
  with assms(2) d2 have "map_of ws1 = map_of ws2"
    by (simp add: map_of_inject_set)
  with assms(2) d2 show ?thesis
    by (simp add: dict_of_def fold_update_distinct)
qed

text \<open>
  C9. Two enumerations of the same mapping from package names to versions give the same
  encoding, character for character, and two snapshots taken from them under the same
  \<open>sys.version\<close> are one environment for \<open>get_or_create_environment\<close>: the second
  call returns the id of the first and inserts nothing. (\<open>dict_of_reordered\<close>: an
  enumeration in another order, no package named twice, gives the same mapping.)
\<close>

theorem module_encoding_is_canonical:
  assumes "map_of (dict_of ws1) = map_of (dict_of ws2)"
    and "get_current_environment sys_version p1 (Some ws1) = Inr e1"
    and "get_current_environment sys_version p2 (Some ws2) = Inr e2"
  shows "json_dumps_sorted (dict_of ws1) = json_dumps_sorted (dict_of ws2) \<and>
         modules e1 = json_dumps_sorted (dict_of ws1) \<and>
         modules e2 = modules e1 \<and>
         (\<exists>i db1. get_or_create_environment t1 e1 db = (Inr i, db1) \<and>
            get_or_create_environment t2 e2 db1 = (Inr i, db1))"
proof -
  have same: "json_dumps_sorted (dict_of ws1) = json_dumps_sorted (dict_of ws2)"
    using assms(1) by (rule json_dumps_sorted_canonical)
  from assms(2,3) obtain v where e1: "e1 = \<lparr>python_version = v, platform = p1,
      modules = json_dumps_sorted (dict_of ws1)\<rparr>"
    and e2: "e2 = \<lparr>python_version = v, platform = p2,
      modules = json_dumps_sorted (dict_of ws2)\<rparr>"
    by (auto simp: get_current_environment_def split: sum.splits)
  obtain i db1 r where first: "get_or_create_environment t1 e1 db = (Inr i, db1)"
    and found: "find (env_matches (python_version e1) (modules e1)) (environments db1) = Some r"
    and id: "env_rowid r = i"
    using get_or_create_then_find by blast
  from found e1 e2 same have "get_or_create_environment t2 e2 db1 = (Inr (env_rowid r), db1)"
    by (simp add: get_or_create_found)
  with first id same e1 e2 show ?thesis by simp
qed

lemma first_word_example: "first_word example_sys_version = Inr ''3.11.4''"
  by (simp add: first_word_def example_sys_version_def is_space_def)

theorem module_encoding_is_canonical_witness:
  "map_of (dict_of example_working_set) = map_of (dict_of (rev example_working_set)) \<and>
   get_current_environment example_sys_version ''Linux'' (Some example_working_set) =
     Inr \<lparr>python_version = ''3.11.4'', platform = ''Linux'',
          modules = json_dumps_sorted (dict_of example_working_set)\<rparr> \<and>
   get_current_environment example_sys_version ''Linux'' (Some (rev example_working_set)) =
     Inr \<lparr>python_version = ''3.11.4'', platform = ''Linux'',
          modules = json_dumps_sorted (dict_of (rev example_working_set))\<rparr> \<and>
   json_dumps_sorted (dict_of example_working_set) =
     json_dumps_sorted (dict_of (rev example_working_set)) \<and>
   (\<exists>i db1.
      get_or_create_environment 10
        \<lparr>python_version = ''3.11.4'', platform = ''Linux'',
          modules = json_dumps_sorted (dict_of example_working_set)\<rparr> empty_db = (Inr i, db1) \<and>
      get_or_create_environment 20
        \<lparr>python_version = ''3.11.4'', platform = ''Linux'',
          modules = json_dumps_sorted (dict_of (rev example_working_set))\<rparr> db1 = (Inr i, db1))"
proof -
  have mapping: "map_of (dict_of example_working_set) = map_of (dict_of (rev example_working_set))"
    by (rule dict_of_reordered) (simp_all add: example_working_set_def)
  have one: "get_current_environment example_sys_version ''Linux'' (Some example_working_set) =
     Inr \<lparr>python_version = ''3.11.4'', platform = ''Linux'',
          modules = json_dumps_sorted (dict_of example_working_set)\<rparr>"
    by (simp add: get_current_environment_def first_word_example)
  have two: "get_current_environment example_sys_version ''Linux'' (Some (rev example_working_set)) =
     Inr \<lparr>python_version = ''3.11.4'', platform = ''Linux'',
          modules = json_dumps_sorted (dict_of (rev example_working_set))\<rparr>"
    by (simp add: get_current_environment_def first_word_example)
  from module_encoding_is_canonical [OF mapping one two, of 10 empty_db 20]
  have "json_dumps_sorted (dict_of example_working_set) =
      json_dumps_sorted (dict_of (rev example_working_set))"
    and "\<exists>i db1.
      get_or_create_environment 10
        \<lparr>python_version = ''3.11.4'', platform = ''Linux'',
          modules = json_dumps_sorted (dict_of example_working_set)\<rparr> empty_db = (Inr i, db1) \<and>
      get_or_create_environment 20
        \<lparr>python_version = ''3.11.4'', platform = ''Linux'',
          modules = json_dumps_sorted (dict_of (rev example_working_set))\<rparr> db1 = (Inr i, db1)"
    by blast+
  with mapping one two show ?thesis
    by (intro conjI)
qed

subsection \<open>Search and filter\<close>

lemma match_here_literal:
  "CHR ''.'' \<notin> set p \<Longrightarrow> match_here p s \<longleftrightarrow> prefix (map lower p) (map lower s)"
  by (induction p s rule: match_here.induct) (auto simp: char_matches_def)

lemma suffix_of_map:
  "suffix ys (map f s) \<longleftrightarrow> (\<exists>s'. suffix s' s \<and> ys = map f s')"
proof
  assume "suffix ys (map f s)"
  then obtain zs where "map f s = zs @ ys"
    by (auto simp: suffix_def)
  then obtain us vs where "s = us @ vs" "ys = map f vs"
    by (auto simp: map_eq_append_conv)
  then show "\<exists>s'. suffix s' s \<and> ys = map f s'"
    by (auto simp: suffix_def)
next
  assume "\<exists>s'. suffix s' s \<and> ys = map f s'"
  then show "suffix ys (map f s)"
    by (auto simp: suffix_def)
qed

lemma search_literal:
  assumes "CHR ''.'' \<notin> set p"
  shows "list_ex (match_here p) (suffixes s) \<longleftrightarrow> ci_substring p s"
proof -
  have "list_ex (match_here p) (suffixes s) \<longleftrightarrow>
      (\<exists>s'. suffix s' s \<and> prefix (map lower p) (map lower s'))"
    using assms by (auto simp: list_ex_iff in_set_suffixes match_here_literal)
  also have "\<dots> \<longleftrightarrow> (\<exists>ys. suffix ys (map lower s) \<and> prefix (map lower p) ys)"
    by (auto simp: suffix_of_map)
  finally show ?thesis
    by (simp add: ci_substring_def sublist_altdef')
qed

text \<open>
  For a search term written without any special character of regular expressions, the
  page filters as the specification says.
\<close>

lemma search_and_filter_literal:
  assumes "list_all (\<lambda>c. c \<notin> set regex_special \<and> c \<noteq> CHR ''.'') search_term"
  shows "search_and_filter search_term filter_status filter_complexity errors_df =
     Some (filter (spec_keeps search_term filter_status filter_complexity) errors_df)"
proof -
  from assms have plain: "\<not> list_ex (\<lambda>c. c \<in> set regex_special) search_term"
    and dot: "CHR ''.'' \<notin> set search_term"
    by (auto simp: list_all_iff list_ex_iff)
  have empty: "ci_substring [] s" for s
    by (simp add: ci_substring_def)
  have "(if search_term \<noteq> [] then
           (case re_compile search_term of
              None \<Rightarrow> None
            | Some rx \<Rightarrow>
                Some (filter (\<lambda>r. str_contains rx (Some (col_error_name r)) \<or>
                                   str_contains rx (col_description r)) errors_df))
         else Some errors_df) =
     Some (filter (\<lambda>r. ci_substring search_term (col_error_name r) \<or>
                        (case col_description r of
                           None \<Rightarrow> False
                         | Some d \<Rightarrow> ci_substring search_term d)) errors_df)"
    using plain search_literal [OF dot]
    by (auto simp: re_compile_def str_contains_def empty split: option.split
        intro!: filter_cong)
  then show ?thesis
    unfolding search_and_filter_def
    by (auto simp: spec_keeps_def Let_def intro!: filter_cong)
qed

text \<open>
  C8. The claim is that the search term is looked for as a substring. pandas reads it as a
  regular expression: the term \<open>3.14\<close> keeps the record named
  \<open>IndexError at row 3x14\<close>, in which the text \<open>3.14\<close> does not occur, because the
  dot matches any character.
\<close>

theorem search_term_is_read_as_regular_expression:
  "search_and_filter ''3.14'' [] [] [example_row] = Some [example_row] \<and>
   \<not> spec_keeps ''3.14'' [] [] example_row"
  by code_simp

end
